theory Spec2Isabelle
  imports Complex_Main "HOL-Library.Product_Lexorder" "HOL-Library.Option_ord"
begin

section \<open>Data model\<close>

text \<open>
  Float columns hold IEEE doubles. A missing or unparsable cell is \<open>NaN\<close>; the infinities
  occur as parsed input (the text \<^verbatim>\<open>1e400\<close> reads as \<open>inf\<close>) and as results
  (\<^verbatim>\<open>np.log(0)\<close> is \<open>-inf\<close>, a division by a zero price is infinite). A finite double is
  its real value, and the elementwise operations on finite values are exact: their
  rounding, overflow and underflow, and the sign of zero, are not modelled. The two
  places where the result of the source depends on how pandas accumulates doubles are
  parameters of the model: the group sum \<open>fsum\<close> of the inventory script and the
  artefact \<open>art\<close> of the rolling standard deviation after an infinite value.
\<close>

datatype fl = NaN | NegInf | PosInf | Num real

text \<open>
  One row of \<^verbatim>\<open>transactions_clean.csv\<close> after the coercions every script applies
  (\<^verbatim>\<open>pd.to_datetime(errors="coerce")\<close>, \<^verbatim>\<open>pd.to_numeric(errors="coerce")\<close>).
  A missing identifier or timestamp is \<open>None\<close>; timestamps are UTC instants (an integer
  count of nanoseconds).
\<close>

record ('s, 't) tx =
  trading_session_uuid :: "'s option"
  transaction_id :: nat
  timestamp_dt :: "int option"
  price :: fl
  quantity :: fl
  bid_trader_uuid :: "'t option"
  ask_trader_uuid :: "'t option"

datatype error = ValueError | OverflowError

section \<open>pandas primitives\<close>

text \<open>Elementwise \<^verbatim>\<open>!=\<close> of two object columns: a missing value differs from everything.\<close>

definition ne_col :: "'a option \<Rightarrow> 'a option \<Rightarrow> bool" where
  "ne_col a b = (case a of None \<Rightarrow> True | Some x \<Rightarrow> (case b of None \<Rightarrow> True | Some y \<Rightarrow> x \<noteq> y))"

text \<open>\<^verbatim>\<open>if filter_self_trades: tx = tx[tx["bid_trader_uuid"] != tx["ask_trader_uuid"]]\<close>\<close>

definition self_trade_filter :: "bool \<Rightarrow> ('s, 't) tx list \<Rightarrow> ('s, 't) tx list" where
  "self_trade_filter flt rows =
     (if flt then filter (\<lambda>r. ne_col (bid_trader_uuid r) (ask_trader_uuid r)) rows else rows)"

text \<open>
  \<^verbatim>\<open>sort_values(["trading_session_uuid", "timestamp_dt"])\<close>: a stable lexicographic sort,
  missing keys last.
\<close>

definition sort_values :: "('s::linorder, 't) tx list \<Rightarrow> ('s, 't) tx list" where
  "sort_values rows =
     sort_key (\<lambda>r. (trading_session_uuid r = None, trading_session_uuid r,
                     timestamp_dt r = None, timestamp_dt r)) rows"

text \<open>The keys of a \<^verbatim>\<open>groupby\<close>: the distinct non-missing keys, sorted.\<close>

definition somes :: "'a option list \<Rightarrow> 'a list" where
  "somes xs = List.map_filter (\<lambda>x. x) xs"

definition group_keys :: "('k::linorder) option list \<Rightarrow> 'k list" where
  "group_keys ks = sort (remdups (somes ks))"

text \<open>The values of one group, in frame order.\<close>

definition group_vals :: "'k option list \<Rightarrow> 'k \<Rightarrow> 'v list \<Rightarrow> 'v list" where
  "group_vals ks k vs = map snd (filter (\<lambda>p. fst p = Some k) (zip ks vs))"

text \<open>
  Split-apply-combine of a per-group transformation (\<^verbatim>\<open>groupby(...)[col].diff()\<close> and
  the like): the results of each group go back to the rows of that group, in order; a
  row whose key is missing gets \<open>na\<close>.
\<close>

fun scatter :: "'k option list \<Rightarrow> ('k \<Rightarrow> 'w list) \<Rightarrow> 'w \<Rightarrow> 'w list" where
  "scatter [] res na = []"
| "scatter (None # ks) res na = na # scatter ks res na"
| "scatter (Some k # ks) res na =
     (case res k of
        [] \<Rightarrow> na # scatter ks res na
      | w # ws \<Rightarrow> w # scatter ks (res(k := ws)) na)"

definition group_apply :: "'k option list \<Rightarrow> ('v list \<Rightarrow> 'w list) \<Rightarrow> 'w \<Rightarrow> 'v list \<Rightarrow> 'w list" where
  "group_apply ks f na vs = scatter ks (\<lambda>k. f (group_vals ks k vs)) na"

text \<open>\<^verbatim>\<open>diff()\<close> of one group: the first point has no predecessor.\<close>

fun diff_from :: "('v \<Rightarrow> 'v \<Rightarrow> 'w) \<Rightarrow> 'v \<Rightarrow> 'v list \<Rightarrow> 'w list" where
  "diff_from sub prev [] = []"
| "diff_from sub prev (x # xs) = sub x prev # diff_from sub x xs"

definition series_diff :: "('v \<Rightarrow> 'v \<Rightarrow> 'w) \<Rightarrow> 'w \<Rightarrow> 'v list \<Rightarrow> 'w list" where
  "series_diff sub na vs = (case vs of [] \<Rightarrow> [] | x # xs \<Rightarrow> na # diff_from sub x xs)"

subsection \<open>Float operations\<close>

definition notna :: "fl \<Rightarrow> bool" where
  "notna v = (v \<noteq> NaN)"

definition fl_finite :: "fl \<Rightarrow> bool" where
  "fl_finite v = (case v of Num _ \<Rightarrow> True | _ \<Rightarrow> False)"

definition num_of :: "fl \<Rightarrow> real" where
  "num_of v = (case v of Num x \<Rightarrow> x | _ \<Rightarrow> 0)"

fun fl_neg :: "fl \<Rightarrow> fl" where
  "fl_neg NaN = NaN"
| "fl_neg NegInf = PosInf"
| "fl_neg PosInf = NegInf"
| "fl_neg (Num x) = Num (- x)"

fun fl_sub :: "fl \<Rightarrow> fl \<Rightarrow> fl" where
  "fl_sub NaN _ = NaN"
| "fl_sub _ NaN = NaN"
| "fl_sub (Num x) (Num y) = Num (x - y)"
| "fl_sub (Num _) PosInf = NegInf"
| "fl_sub (Num _) NegInf = PosInf"
| "fl_sub PosInf PosInf = NaN"
| "fl_sub NegInf NegInf = NaN"
| "fl_sub PosInf _ = PosInf"
| "fl_sub NegInf _ = NegInf"

text \<open>Float division; a zero divisor is taken as \<open>+0\<close>.\<close>

fun fl_div :: "fl \<Rightarrow> fl \<Rightarrow> fl" where
  "fl_div NaN _ = NaN"
| "fl_div _ NaN = NaN"
| "fl_div (Num x) (Num y) =
     (if y \<noteq> 0 then Num (x / y) else if 0 < x then PosInf else if x < 0 then NegInf else NaN)"
| "fl_div (Num _) _ = Num 0"
| "fl_div PosInf (Num y) = (if y < 0 then NegInf else PosInf)"
| "fl_div NegInf (Num y) = (if y < 0 then PosInf else NegInf)"
| "fl_div _ _ = NaN"

text \<open>Comparisons with zero; a comparison with \<open>NaN\<close> is false.\<close>

fun gt0 :: "fl \<Rightarrow> bool" where
  "gt0 (Num x) = (0 < x)"
| "gt0 PosInf = True"
| "gt0 _ = False"

fun lt0 :: "fl \<Rightarrow> bool" where
  "lt0 (Num x) = (x < 0)"
| "lt0 NegInf = True"
| "lt0 _ = False"

text \<open>\<^verbatim>\<open>np.log\<close> on the price column.\<close>

fun np_log :: "fl \<Rightarrow> fl" where
  "np_log (Num x) = (if 0 < x then Num (ln x) else if x = 0 then NegInf else NaN)"
| "np_log PosInf = PosInf"
| "np_log _ = NaN"

text \<open>
  \<^verbatim>\<open>pct_change()\<close>: \<open>price[i] / price[i-1] - 1\<close>. The price column has no missing value
  where it is called, so the forward fill \<^verbatim>\<open>pct_change\<close> applies first is the identity.
\<close>

definition pct :: "fl \<Rightarrow> fl \<Rightarrow> fl" where
  "pct cur prev = fl_sub (fl_div cur prev) (Num 1)"

text \<open>
  Standard deviation with \<open>ddof = 1\<close> of the non-missing observations: undefined for fewer
  than two of them, and \<open>NaN\<close> as soon as one of them is infinite (\<open>inf - inf\<close>).
\<close>

definition mean :: "real list \<Rightarrow> real" where
  "mean xs = sum_list xs / real (length xs)"

definition std_ddof1 :: "fl list \<Rightarrow> fl" where
  "std_ddof1 obs =
     (if length obs < 2 then NaN
      else if list_all fl_finite obs
      then (let xs = map num_of obs
            in Num (sqrt (sum_list (map (\<lambda>x. (x - mean xs)\<^sup>2) xs) / real (length xs - 1))))
      else NaN)"

definition np_std :: "fl list \<Rightarrow> fl" where
  "np_std vs = std_ddof1 (filter notna vs)"

text \<open>
  \<^verbatim>\<open>rolling(W).std()\<close> of one group. The window at position \<open>p\<close> holds the last \<open>W\<close>
  positions ending at \<open>p\<close> (fewer at the start of the group). The result is undefined
  unless the window holds at least \<open>min_periods = W\<close> non-missing observations, and more
  than \<open>ddof = 1\<close> of them. As long as no infinite value has entered the group, the
  result is the statistic of the window. How an infinite observation is treated depends
  on the pandas version (it is read as missing, or it is carried along by the update of
  the statistic from window to window): what is left in a cell with enough non-missing
  observations once an infinite value has entered is the parameter \<open>art\<close>.
\<close>

definition window_at :: "nat \<Rightarrow> 'v list \<Rightarrow> nat \<Rightarrow> 'v list" where
  "window_at W xs p = drop (Suc p - W) (take (Suc p) xs)"

definition rolling_std_at :: "(fl list \<Rightarrow> nat \<Rightarrow> fl) \<Rightarrow> nat \<Rightarrow> fl list \<Rightarrow> nat \<Rightarrow> fl" where
  "rolling_std_at art W xs p =
     (let obs = filter notna (window_at W xs p)
      in if W \<le> length obs \<and> 2 \<le> length obs
         then (if list_all fl_finite (filter notna (take (Suc p) xs)) then std_ddof1 obs
               else art xs p)
         else NaN)"

definition rolling_std_series :: "(fl list \<Rightarrow> nat \<Rightarrow> fl) \<Rightarrow> nat \<Rightarrow> fl list \<Rightarrow> fl list" where
  "rolling_std_series art W xs = map (rolling_std_at art W xs) [0..<length xs]"

section \<open>02: inventory reconstruction\<close>

type_synonym ('s, 't) leg = "'s option \<times> 't option \<times> fl"

definition bids :: "('s, 't) tx list \<Rightarrow> ('s, 't) leg list" where
  "bids rows = map (\<lambda>r. (trading_session_uuid r, bid_trader_uuid r, quantity r)) rows"

definition asks :: "('s, 't) tx list \<Rightarrow> ('s, 't) leg list" where
  "asks rows = map (\<lambda>r. (trading_session_uuid r, ask_trader_uuid r, fl_neg (quantity r))) rows"

text \<open>The frame \<^verbatim>\<open>inv\<close>: self-trade filter, \<^verbatim>\<open>dropna(subset=["quantity"])\<close>, buyer legs then seller legs.\<close>

definition inv_legs :: "bool \<Rightarrow> ('s, 't) tx list \<Rightarrow> ('s, 't) leg list" where
  "inv_legs flt rows =
     (let kept = filter (\<lambda>r. quantity r \<noteq> NaN) (self_trade_filter flt rows)
      in bids kept @ asks kept)"

definition leg_key :: "('s, 't) leg \<Rightarrow> ('s \<times> 't) option" where
  "leg_key l = (case fst l of None \<Rightarrow> None
                | Some s \<Rightarrow> (case fst (snd l) of None \<Rightarrow> None | Some t \<Rightarrow> Some (s, t)))"

text \<open>
  \<^verbatim>\<open>groupby([...])["inv_change"].sum()\<close>: one row per (session, trader), whose cell is
  the double-precision sum \<open>fsum\<close> of the group's non-missing values in frame order.
\<close>

definition inv_summary ::
    "(fl list \<Rightarrow> fl) \<Rightarrow> bool \<Rightarrow> ('s::linorder, 't::linorder) tx list \<Rightarrow> (('s \<times> 't) \<times> fl) list" where
  "inv_summary fsum flt rows =
     (let legs = inv_legs flt rows; ks = map leg_key legs
      in map (\<lambda>k. (k, fsum (filter notna (group_vals ks k (map (\<lambda>l. snd (snd l)) legs)))))
             (group_keys ks))"

text \<open>The \<^verbatim>\<open>net_inventory\<close> cell of a (session, trader) row of the output, if there is such a row.\<close>

definition net_inventory ::
    "(fl list \<Rightarrow> fl) \<Rightarrow> bool \<Rightarrow> ('s::linorder, 't::linorder) tx list \<Rightarrow> 's \<Rightarrow> 't \<Rightarrow> fl option" where
  "net_inventory fsum flt rows s t = map_of (inv_summary fsum flt rows) (s, t)"

section \<open>03: returns and volatility\<close>

text \<open>
  The frame after the self-trade filter, \<^verbatim>\<open>dropna(subset=["price", "timestamp_dt"])\<close> and
  the sort.
\<close>

definition vol_rows :: "bool \<Rightarrow> ('s::linorder, 't) tx list \<Rightarrow> ('s, 't) tx list" where
  "vol_rows flt ledger =
     sort_values (filter (\<lambda>r. price r \<noteq> NaN \<and> timestamp_dt r \<noteq> None) (self_trade_filter flt ledger))"

definition sessions :: "('s, 't) tx list \<Rightarrow> 's option list" where
  "sessions rows = map trading_session_uuid rows"

definition log_price_col :: "('s, 't) tx list \<Rightarrow> fl list" where
  "log_price_col rows = map (\<lambda>r. np_log (price r)) rows"

definition log_ret_col :: "('s, 't) tx list \<Rightarrow> fl list" where
  "log_ret_col rows = group_apply (sessions rows) (series_diff fl_sub NaN) NaN (log_price_col rows)"

definition ret_col :: "('s, 't) tx list \<Rightarrow> fl list" where
  "ret_col rows = group_apply (sessions rows) (series_diff pct NaN) NaN (map price rows)"

definition rolling_vol_logret_col :: "(fl list \<Rightarrow> nat \<Rightarrow> fl) \<Rightarrow> nat \<Rightarrow> ('s, 't) tx list \<Rightarrow> fl list" where
  "rolling_vol_logret_col art W rows =
     group_apply (sessions rows) (rolling_std_series art W) NaN (log_ret_col rows)"

text \<open>The aggregations \<^verbatim>\<open>"first"\<close> and \<^verbatim>\<open>"last"\<close>: the first and last non-missing value.\<close>

definition agg_first :: "fl list \<Rightarrow> fl" where
  "agg_first vs = (case filter notna vs of [] \<Rightarrow> NaN | x # _ \<Rightarrow> x)"

definition agg_last :: "fl list \<Rightarrow> fl" where
  "agg_last vs = (case rev (filter notna vs) of [] \<Rightarrow> NaN | x # _ \<Rightarrow> x)"

record 's vol_summary =
  vs_session :: 's
  n_trades :: nat
  price_first :: fl
  price_last :: fl
  realized_vol_logret :: fl
  realized_vol_ret :: fl

definition summary :: "('s::linorder, 't) tx list \<Rightarrow> 's vol_summary list" where
  "summary rows =
     (let ks = sessions rows
      in map (\<lambda>k. \<lparr>vs_session = k,
                    n_trades = length (group_vals ks k rows),
                    price_first = agg_first (group_vals ks k (map price rows)),
                    price_last = agg_last (group_vals ks k (map price rows)),
                    realized_vol_logret = np_std (group_vals ks k (log_ret_col rows)),
                    realized_vol_ret = np_std (group_vals ks k (ret_col rows))\<rparr>)
             (group_keys ks))"

text \<open>The enriched frame \<^verbatim>\<open>transactions_with_volatility\<close>, column by column.\<close>

record ('s, 't) vol_frame =
  vf_rows :: "('s, 't) tx list"
  vf_log_price :: "fl list"
  vf_log_ret :: "fl list"
  vf_ret :: "fl list"
  vf_rolling_vol_logret :: "fl list"

definition enrich :: "(fl list \<Rightarrow> nat \<Rightarrow> fl) \<Rightarrow> nat \<Rightarrow> ('s, 't) tx list \<Rightarrow> ('s, 't) vol_frame" where
  "enrich art W rows =
     \<lparr>vf_rows = rows,
      vf_log_price = log_price_col rows,
      vf_log_ret = log_ret_col rows,
      vf_ret = ret_col rows,
      vf_rolling_vol_logret = rolling_vol_logret_col art W rows\<rparr>"

text \<open>
  \<^verbatim>\<open>main(rolling_window_trades, filter_self_trades)\<close> of the volatility script: the
  enriched frame and the session summary, or the error of \<^verbatim>\<open>rolling\<close>. A negative
  window is rejected (\<^verbatim>\<open>ValueError: window must be an integer 0 or greater\<close>); a window
  that does not fit a signed 64-bit integer overflows as soon as a group is rolled
  (\<^verbatim>\<open>OverflowError\<close>).
\<close>

definition vol_main ::
    "(fl list \<Rightarrow> nat \<Rightarrow> fl) \<Rightarrow> int \<Rightarrow> bool \<Rightarrow> ('s::linorder, 't) tx list \<Rightarrow>
     error + (('s, 't) vol_frame \<times> 's vol_summary list)" where
  "vol_main art rolling_window_trades flt ledger =
     (let rows = vol_rows flt ledger
      in if rolling_window_trades < 0 then Inl ValueError
         else if 2 ^ 63 \<le> rolling_window_trades \<and> somes (sessions rows) \<noteq> [] then Inl OverflowError
         else Inr (enrich art (nat rolling_window_trades) rows, summary rows))"

section \<open>04: feedback trading\<close>

text \<open>
  The frame after the self-trade filter,
  \<^verbatim>\<open>dropna(subset=["price", "quantity", "timestamp_dt"])\<close> and the sort.
\<close>

definition fb_rows :: "bool \<Rightarrow> ('s::linorder, 't) tx list \<Rightarrow> ('s, 't) tx list" where
  "fb_rows flt ledger =
     sort_values (filter (\<lambda>r. price r \<noteq> NaN \<and> quantity r \<noteq> NaN \<and> timestamp_dt r \<noteq> None)
                         (self_trade_filter flt ledger))"

text \<open>\<^verbatim>\<open>tx["price_change"] = tx.groupby("trading_session_uuid")["price"].diff()\<close>\<close>

definition price_change_col :: "('s, 't) tx list \<Rightarrow> fl list" where
  "price_change_col rows = group_apply (sessions rows) (series_diff fl_sub NaN) NaN (map price rows)"

record ('s, 't) event =
  ev_session :: "'s option"
  ev_transaction_id :: nat
  ev_timestamp_dt :: "int option"
  ev_price :: fl
  ev_price_change :: fl
  ev_trader :: "'t option"
  ev_quantity :: fl
  ev_signed_qty :: fl

definition buyer :: "('s, 't) tx \<times> fl \<Rightarrow> ('s, 't) event" where
  "buyer rp = (case rp of (r, pc) \<Rightarrow>
     \<lparr>ev_session = trading_session_uuid r, ev_transaction_id = transaction_id r,
      ev_timestamp_dt = timestamp_dt r, ev_price = price r, ev_price_change = pc,
      ev_trader = bid_trader_uuid r, ev_quantity = quantity r,
      ev_signed_qty = quantity r\<rparr>)"

definition seller :: "('s, 't) tx \<times> fl \<Rightarrow> ('s, 't) event" where
  "seller rp = (case rp of (r, pc) \<Rightarrow>
     \<lparr>ev_session = trading_session_uuid r, ev_transaction_id = transaction_id r,
      ev_timestamp_dt = timestamp_dt r, ev_price = price r, ev_price_change = pc,
      ev_trader = ask_trader_uuid r, ev_quantity = quantity r,
      ev_signed_qty = fl_neg (quantity r)\<rparr>)"

text \<open>
  \<^verbatim>\<open>events = pd.concat([buyer, seller]); events = events.dropna(subset=["price_change"])\<close>
\<close>

definition events_of :: "('s, 't) tx list \<Rightarrow> ('s, 't) event list" where
  "events_of rows =
     (let priced = zip rows (price_change_col rows)
      in filter (\<lambda>e. ev_price_change e \<noteq> NaN) (map buyer priced @ map seller priced))"

definition events :: "bool \<Rightarrow> ('s::linorder, 't) tx list \<Rightarrow> ('s, 't) event list" where
  "events flt ledger = events_of (fb_rows flt ledger)"

text \<open>The column \<^verbatim>\<open>feedback_trade\<close> (\<^verbatim>\<open>np.where(..., 1, 0)\<close>).\<close>

definition feedback_trade :: "('s, 't) event \<Rightarrow> int" where
  "feedback_trade e =
     (if (gt0 (ev_price_change e) \<and> gt0 (ev_signed_qty e)) \<or>
         (lt0 (ev_price_change e) \<and> lt0 (ev_signed_qty e))
      then 1 else 0)"

text \<open>The aggregation \<^verbatim>\<open>"mean"\<close> of an integer column.\<close>

definition np_mean :: "int list \<Rightarrow> fl" where
  "np_mean xs = (if xs = [] then NaN else Num (real_of_int (sum_list xs) / real (length xs)))"

definition ev_key :: "('s, 't) event \<Rightarrow> ('s \<times> 't) option" where
  "ev_key e = (case ev_session e of None \<Rightarrow> None
               | Some s \<Rightarrow> (case ev_trader e of None \<Rightarrow> None | Some t \<Rightarrow> Some (s, t)))"

text \<open>Rows \<open>(key, size, mean)\<close> of the two summaries.\<close>

definition trader_summary :: "('s::linorder, 't::linorder) event list \<Rightarrow> (('s \<times> 't) \<times> nat \<times> fl) list" where
  "trader_summary evs =
     (let ks = map ev_key evs; col = map feedback_trade evs
      in map (\<lambda>k. (k, length (group_vals ks k col), np_mean (group_vals ks k col))) (group_keys ks))"

definition session_summary :: "('s::linorder, 't) event list \<Rightarrow> ('s \<times> nat \<times> fl) list" where
  "session_summary evs =
     (let ks = map ev_session evs; col = map feedback_trade evs
      in map (\<lambda>k. (k, length (group_vals ks k col), np_mean (group_vals ks k col))) (group_keys ks))"

text \<open>
  \<^verbatim>\<open>main(filter_self_trades)\<close> of the feedback script: the event table with its
  \<^verbatim>\<open>feedback_trade\<close> column, and the two summaries.
\<close>

definition fb_main :: "bool \<Rightarrow> ('s::linorder, 't::linorder) tx list \<Rightarrow>
    ('s, 't) event list \<times> int list \<times> (('s \<times> 't) \<times> nat \<times> fl) list \<times> ('s \<times> nat \<times> fl) list" where
  "fb_main flt ledger =
     (let evs = events flt ledger
      in (evs, map feedback_trade evs, trader_summary evs, session_summary evs))"

section \<open>Notions of the specification\<close>

text \<open>The Bessel-corrected sample standard deviation (divisor \<open>n - 1\<close>).\<close>

definition sample_std :: "real list \<Rightarrow> real" where
  "sample_std xs = sqrt (sum_list (map (\<lambda>x. (x - mean xs)\<^sup>2) xs) / real (length xs - 1))"

text \<open>The most recent \<open>n\<close> values of a series.\<close>

definition last_n :: "nat \<Rightarrow> 'a list \<Rightarrow> 'a list" where
  "last_n n xs = drop (length xs - n) xs"

text \<open>The ordered series of a column within one session.\<close>

definition session_col :: "('s, 't) tx list \<Rightarrow> 's \<Rightarrow> 'v list \<Rightarrow> 'v list" where
  "session_col rows s col = group_vals (sessions rows) s col"

text \<open>The rows of one session, in frame order.\<close>

definition session_rows :: "('s, 't) tx list \<Rightarrow> 's \<Rightarrow> ('s, 't) tx list" where
  "session_rows rows s = filter (\<lambda>r. trading_session_uuid r = Some s) rows"

text \<open>
  The raw price difference of the return series, \<open>price[i] - price[i-1]\<close> in session
  order, undefined at the first point of a session.
\<close>

definition raw_price_diff :: "('s, 't) tx list \<Rightarrow> nat \<Rightarrow> fl" where
  "raw_price_diff srows p =
     (if p = 0 then NaN else fl_sub (price (srows ! p)) (price (srows ! (p - 1))))"

text \<open>The legs of one (session, trader) in the inventory frame, in frame order.\<close>

definition trader_legs :: "bool \<Rightarrow> ('s, 't) tx list \<Rightarrow> 's \<Rightarrow> 't \<Rightarrow> fl list" where
  "trader_legs flt rows s t =
     map (\<lambda>l. snd (snd l)) (filter (\<lambda>l. leg_key l = Some (s, t)) (inv_legs flt rows))"

text \<open>The sum of finite leg values in exact arithmetic.\<close>

definition exact_total :: "fl list \<Rightarrow> real" where
  "exact_total vs = sum_list (map num_of vs)"

text \<open>A group sum without rounding error, and a rolling artefact that is always undefined.\<close>

definition exact_sum :: "fl list \<Rightarrow> fl" where
  "exact_sum vs = Num (exact_total vs)"

definition art_nan :: "fl list \<Rightarrow> nat \<Rightarrow> fl" where
  "art_nan xs p = NaN"

section \<open>Auxiliary notions for the proofs\<close>

text \<open>How many rows of a key column belong to a group.\<close>

definition cnt :: "'k option list \<Rightarrow> 'k \<Rightarrow> nat" where
  "cnt ks k = length (filter (\<lambda>x. x = Some k) ks)"

text \<open>What the two legs of one transaction add, in exact arithmetic, to a (session, trader).\<close>

definition row_net :: "('s, 't) tx \<Rightarrow> ('s \<times> 't) \<Rightarrow> real" where
  "row_net r k =
     (if leg_key (trading_session_uuid r, bid_trader_uuid r, quantity r) = Some k
      then num_of (quantity r) else 0)
   + (if leg_key (trading_session_uuid r, ask_trader_uuid r, fl_neg (quantity r)) = Some k
      then num_of (fl_neg (quantity r)) else 0)"

section \<open>Example ledgers\<close>

text \<open>A row with session, transaction id, timestamp, price, quantity, buyer and seller.\<close>

definition trade :: "nat \<Rightarrow> nat \<Rightarrow> int option \<Rightarrow> fl \<Rightarrow> fl \<Rightarrow> nat \<Rightarrow> nat \<Rightarrow> (nat, nat) tx" where
  "trade s i t p q b a =
     \<lparr>trading_session_uuid = Some s, transaction_id = i, timestamp_dt = t, price = p,
      quantity = q, bid_trader_uuid = Some b, ask_trader_uuid = Some a\<rparr>"

text \<open>Trader 2 buys 5 from trader 3, then trades 3 with themselves.\<close>

definition ledger_mixed :: "(nat, nat) tx list" where
  "ledger_mixed = [trade 7 1 (Some 10) (Num 100) (Num 5) 2 3,
                   trade 7 2 (Some 20) (Num 101) (Num 3) 2 2]"

text \<open>A ledger whose only transaction is a self-trade of trader 2.\<close>

definition ledger_self :: "(nat, nat) tx list" where
  "ledger_self = [trade 7 1 (Some 10) (Num 100) (Num 5) 2 2]"

text \<open>Three trades of one session at the constant price 1.\<close>

definition ledger_flat :: "(nat, nat) tx list" where
  "ledger_flat = [trade 7 1 (Some 10) (Num 1) (Num 5) 1 2,
                  trade 7 2 (Some 20) (Num 1) (Num 3) 2 1,
                  trade 7 3 (Some 30) (Num 1) (Num 4) 1 2]"

text \<open>Five trades of one session; the third has a negative price.\<close>

definition ledger_dip :: "(nat, nat) tx list" where
  "ledger_dip = [trade 7 1 (Some 10) (Num 1) (Num 5) 1 2,
                 trade 7 2 (Some 20) (Num 1) (Num 3) 2 1,
                 trade 7 3 (Some 30) (Num (- 1)) (Num 4) 1 2,
                 trade 7 4 (Some 40) (Num 1) (Num 4) 1 2,
                 trade 7 5 (Some 50) (Num 1) (Num 4) 1 2]"

text \<open>Five trades of one session; the second has the price 0.\<close>

definition ledger_zero :: "(nat, nat) tx list" where
  "ledger_zero = [trade 7 1 (Some 10) (Num 1) (Num 5) 1 2,
                  trade 7 2 (Some 20) (Num 0) (Num 3) 2 1,
                  trade 7 3 (Some 30) (Num 1) (Num 4) 1 2,
                  trade 7 4 (Some 40) (Num 1) (Num 4) 1 2,
                  trade 7 5 (Some 50) (Num 1) (Num 4) 1 2]"

text \<open>Three trades of one session; the quantity of the second is unparsable.\<close>

definition ledger_gap :: "(nat, nat) tx list" where
  "ledger_gap = [trade 7 1 (Some 10) (Num 100) (Num 5) 1 2,
                 trade 7 2 (Some 20) (Num 105) NaN 2 1,
                 trade 7 3 (Some 30) (Num 103) (Num 4) 1 2]"

text \<open>The round-trip scenario: prices 100, 102, 101 and quantities 5, 3, 4.\<close>

definition ledger_round :: "(nat, nat) tx list" where
  "ledger_round = [trade 7 1 (Some 10) (Num 100) (Num 5) 1 2,
                   trade 7 2 (Some 20) (Num 102) (Num 3) 2 1,
                   trade 7 3 (Some 30) (Num 101) (Num 4) 1 2]"


text \<open>A trade without a timestamp, followed by the round-trip scenario.\<close>

definition ledger_untimed :: "(nat, nat) tx list" where
  "ledger_untimed = trade 7 9 None (Num 50) (Num 2) 3 4 # ledger_round"

text \<open>A single trade with neither a timestamp nor a parsable quantity.\<close>

definition ledger_blank :: "(nat, nat) tx list" where
  "ledger_blank = [trade 7 9 None (Num 50) NaN 3 4]"

text \<open>A single self-trade without a timestamp.\<close>

definition ledger_untimed_self :: "(nat, nat) tx list" where
  "ledger_untimed_self = [trade 7 9 None (Num 50) (Num 2) 3 3]"

text \<open>A single trade with neither a timestamp nor a session id.\<close>

definition ledger_anon :: "(nat, nat) tx list" where
  "ledger_anon = [(trade 7 9 None (Num 50) (Num 2) 3 4)\<lparr>trading_session_uuid := None\<rparr>]"

section \<open>Properties\<close>

subsection \<open>Grouping\<close>

lemma somes_Nil: "somes [] = []"
  by (simp add: somes_def List.map_filter_simps)

lemma somes_Cons: "somes (x # xs) = (case x of None \<Rightarrow> somes xs | Some v \<Rightarrow> v # somes xs)"
  by (simp add: somes_def List.map_filter_simps split: option.splits)

lemma set_somes: "set (somes xs) = {v. Some v \<in> set xs}"
  by (induction xs) (auto simp: somes_Cons somes_Nil split: option.splits)

lemma set_group_keys: "set (group_keys ks) = {k. Some k \<in> set ks}"
  by (simp add: group_keys_def set_somes)

lemma distinct_group_keys: "distinct (group_keys ks)"
  by (simp add: group_keys_def)

lemma map_of_tabulate:
  "map_of (map (\<lambda>k. (k, g k)) ks) k = (if k \<in> set ks then Some (g k) else None)"
  by (induction ks) auto

lemma length_scatter: "length (scatter ks res na) = length ks"
proof (induction ks arbitrary: res)
  case Nil
  then show ?case by simp
next
  case (Cons x ks)
  show ?case
  proof (cases x)
    case None
    then show ?thesis by (simp add: Cons.IH)
  next
    case (Some k)
    then show ?thesis by (cases "res k") (simp_all add: Cons.IH)
  qed
qed

lemma group_vals_Nil: "group_vals [] k vs = []" "group_vals ks k [] = []"
  by (simp_all add: group_vals_def)

lemma group_vals_Cons:
  "group_vals (x # ks) k (v # vs) = (if x = Some k then v # group_vals ks k vs else group_vals ks k vs)"
  by (simp add: group_vals_def)

lemma length_group_vals:
  "length vs = length ks \<Longrightarrow> length (group_vals ks k vs) = cnt ks k"
  by (induction ks vs rule: list_induct2') (auto simp: group_vals_Nil group_vals_Cons cnt_def)

lemma group_vals_map:
  "group_vals (map key xs) k (map val xs) = map val (filter (\<lambda>x. key x = Some k) xs)"
  by (induction xs) (auto simp: group_vals_Nil group_vals_Cons)

lemma group_vals_scatter:
  "(\<And>k. cnt ks k \<le> length (res k)) \<Longrightarrow>
   group_vals ks k (scatter ks res na) = take (cnt ks k) (res k)"
proof (induction ks res na rule: scatter.induct)
  case (1 res na)
  then show ?case by (simp add: group_vals_Nil cnt_def)
next
  case (2 ks res na)
  then show ?case by (simp add: group_vals_Cons cnt_def)
next
  case (3 k' ks res na)
  from "3.prems"[of k'] obtain w ws where r: "res k' = w # ws"
    by (cases "res k'") (auto simp: cnt_def)
  have le: "cnt ks j \<le> length ((res(k' := ws)) j)" for j
    using "3.prems"[of j] r by (cases "j = k'") (simp_all add: cnt_def)
  have ih: "group_vals ks k (scatter ks (res(k' := ws)) na) = take (cnt ks k) ((res(k' := ws)) k)"
    using "3.IH"(2)[OF r le] .
  show ?case
    using r ih by (auto simp: group_vals_Cons cnt_def)
qed

lemma group_vals_group_apply:
  assumes "\<And>xs. length (f xs) = length xs" and "length vs = length ks"
  shows "group_vals ks k (group_apply ks f na vs) = f (group_vals ks k vs)"
proof -
  have "\<And>j. cnt ks j \<le> length (f (group_vals ks j vs))"
    by (simp add: assms length_group_vals)
  then have "group_vals ks k (group_apply ks f na vs) = take (cnt ks k) (f (group_vals ks k vs))"
    unfolding group_apply_def by (rule group_vals_scatter)
  then show ?thesis by (simp add: assms length_group_vals)
qed

lemma length_diff_from: "length (diff_from sub prev xs) = length xs"
  by (induction xs arbitrary: prev) auto

lemma length_series_diff: "length (series_diff sub na xs) = length xs"
  by (cases xs) (auto simp: series_diff_def length_diff_from)

lemma length_rolling_std_series: "length (rolling_std_series art W xs) = length xs"
  by (simp add: rolling_std_series_def)

lemma diff_from_nth:
  "n < length xs \<Longrightarrow>
   diff_from sub prev xs ! n = sub (xs ! n) (if n = 0 then prev else xs ! (n - 1))"
proof (induction xs arbitrary: prev n)
  case Nil
  then show ?case by simp
next
  case (Cons x xs)
  show ?case
  proof (cases n)
    case 0
    then show ?thesis by simp
  next
    case (Suc m)
    with Cons.prems have "m < length xs" by simp
    from Cons.IH[OF this, of x] Suc show ?thesis
      by (cases m) simp_all
  qed
qed

lemma series_diff_nth:
  "p < length vs \<Longrightarrow>
   series_diff sub na vs ! p = (if p = 0 then na else sub (vs ! p) (vs ! (p - 1)))"
proof (cases vs)
  case Nil
  then show "p < length vs \<Longrightarrow> ?thesis" by simp
next
  case (Cons x xs)
  assume "p < length vs"
  then show ?thesis
    using Cons by (cases p) (auto simp: series_diff_def diff_from_nth nth_Cons')
qed

lemmas eval_simps =
  trade_def self_trade_filter_def ne_col_def sort_values_def sessions_def
  group_keys_def somes_Nil somes_Cons group_vals_def group_apply_def series_diff_def

lemma upt_3: "[0..<3] = [0, 1, 2]"
  by (simp add: upt_rec)

lemma upt_5: "[0..<5] = [0, 1, 2, 3, 4]"
  by (simp add: upt_rec)

subsection \<open>Frames and session series\<close>

lemma filter_self_trade_filter:
  "(\<And>x. P x \<Longrightarrow> Q x) \<Longrightarrow>
   filter P (self_trade_filter flt (filter Q xs)) = filter P (self_trade_filter flt xs)"
  by (cases flt) (auto simp: self_trade_filter_def intro: filter_cong)

lemma vol_rows_dropna_price:
  "vol_rows flt (filter (\<lambda>r. price r \<noteq> NaN) ledger) = vol_rows flt ledger"
  unfolding vol_rows_def by (subst filter_self_trade_filter) simp_all

lemma vol_rows_dropna_timestamp:
  "vol_rows flt (filter (\<lambda>r. timestamp_dt r \<noteq> None) ledger) = vol_rows flt ledger"
  unfolding vol_rows_def by (subst filter_self_trade_filter) simp_all

lemma fb_rows_dropna_timestamp:
  "fb_rows flt (filter (\<lambda>r. timestamp_dt r \<noteq> None) ledger) = fb_rows flt ledger"
  unfolding fb_rows_def by (subst filter_self_trade_filter) simp_all

lemma set_sort_values: "set (sort_values rows) = set rows"
  by (simp add: sort_values_def)

lemma set_vol_rows:
  "r \<in> set (vol_rows flt ledger) \<longleftrightarrow>
   r \<in> set ledger \<and> price r \<noteq> NaN \<and> timestamp_dt r \<noteq> None \<and>
   (flt \<longrightarrow> ne_col (bid_trader_uuid r) (ask_trader_uuid r))"
  by (auto simp: vol_rows_def set_sort_values self_trade_filter_def)


lemma session_price:
  "session_col rows s (map price rows) = map price (session_rows rows s)"
  by (simp add: session_col_def sessions_def session_rows_def group_vals_map)

lemma session_log_ret:
  "session_col rows s (log_ret_col rows)
     = series_diff fl_sub NaN (map (\<lambda>r. np_log (price r)) (session_rows rows s))"
  unfolding log_ret_col_def session_col_def
  by (simp add: group_vals_group_apply length_series_diff sessions_def log_price_col_def group_vals_map
      session_rows_def)

lemma session_ret:
  "session_col rows s (ret_col rows) = series_diff pct NaN (map price (session_rows rows s))"
  unfolding ret_col_def session_col_def
  by (simp add: group_vals_group_apply length_series_diff sessions_def group_vals_map session_rows_def)

lemma session_price_change:
  "session_col rows s (price_change_col rows)
     = series_diff fl_sub NaN (map price (session_rows rows s))"
  unfolding price_change_col_def session_col_def
  by (simp add: group_vals_group_apply length_series_diff sessions_def group_vals_map session_rows_def)

lemma length_log_ret_col: "length (log_ret_col rows) = length rows"
  by (simp add: log_ret_col_def group_apply_def length_scatter sessions_def)

lemma session_rolling:
  "session_col rows s (rolling_vol_logret_col art W rows)
     = rolling_std_series art W (session_col rows s (log_ret_col rows))"
  unfolding rolling_vol_logret_col_def session_col_def
  by (simp add: group_vals_group_apply length_rolling_std_series length_log_ret_col sessions_def)

lemma length_session_log_ret:
  "length (session_col rows s (log_ret_col rows)) = length (session_rows rows s)"
  by (simp add: session_log_ret length_series_diff)

lemma vol_main_Inr:
  "vol_main art W flt ledger = Inr (fr, sm) \<Longrightarrow>
   0 \<le> W \<and> fr = enrich art (nat W) (vol_rows flt ledger) \<and> sm = summary (vol_rows flt ledger)"
  by (auto simp: vol_main_def Let_def split: if_splits)

lemma vol_main_small:
  "0 \<le> W \<Longrightarrow> W < 2 ^ 63 \<Longrightarrow>
   vol_main art W flt ledger = Inr (enrich art (nat W) (vol_rows flt ledger), summary (vol_rows flt ledger))"
  by (simp add: vol_main_def Let_def)

lemmas vol_eval =
  vol_rows_def enrich_def log_price_col_def log_ret_col_def ret_col_def rolling_vol_logret_col_def
  pct_def rolling_std_series_def rolling_std_at_def window_at_def notna_def
  std_ddof1_def np_std_def fl_finite_def num_of_def session_col_def session_rows_def summary_def
  agg_first_def agg_last_def art_nan_def

lemmas feedback_eval =
  fb_rows_def price_change_col_def events_def events_of_def buyer_def seller_def
  feedback_trade_def session_summary_def trader_summary_def ev_key_def np_mean_def

lemmas inventory_eval =
  net_inventory_def inv_summary_def inv_legs_def bids_def asks_def leg_key_def notna_def
  exact_sum_def exact_total_def num_of_def trader_legs_def

subsection \<open>Rolling volatility\<close>

lemma fl_finite_notna: "fl_finite v \<Longrightarrow> notna v"
  by (cases v) (simp_all add: fl_finite_def notna_def)

lemma filter_notna_nums: "list_all fl_finite xs \<Longrightarrow> filter notna xs = xs"
  by (induction xs) (auto simp: fl_finite_notna)

lemma std_ddof1_nums:
  "list_all fl_finite obs \<Longrightarrow> 2 \<le> length obs \<Longrightarrow> std_ddof1 obs = Num (sample_std (map num_of obs))"
  by (simp add: std_ddof1_def sample_std_def Let_def)

lemma filter_full: "length (filter P xs) = length xs \<Longrightarrow> filter P xs = xs"
proof (induction xs)
  case Nil
  then show ?case by simp
next
  case (Cons x xs)
  have le: "length (filter P xs) \<le> length xs" by simp
  show ?case
  proof (cases "P x")
    case True
    with Cons show ?thesis by simp
  next
    case False
    with Cons.prems le show ?thesis by simp
  qed
qed

lemma rolling_nth:
  "p < length xs \<Longrightarrow> rolling_std_series art W xs ! p = rolling_std_at art W xs p"
  by (simp add: rolling_std_series_def)

lemma length_window_at:
  "p < length xs \<Longrightarrow> length (window_at W xs p) = min W (Suc p)"
  by (auto simp: window_at_def min_def)

lemma set_window_at: "set (window_at W xs p) \<subseteq> set (take (Suc p) xs)"
  by (auto simp: window_at_def dest: in_set_dropD)

lemma rolling_defined:
  assumes p: "p < length xs" and d: "rolling_std_at art W xs p \<noteq> NaN"
  shows "2 \<le> W \<and> W \<le> Suc p \<and> list_all notna (window_at W xs p)"
proof -
  let ?w = "window_at W xs p"
  from d have a: "W \<le> length (filter notna ?w)" and b: "2 \<le> length (filter notna ?w)"
    by (auto simp: rolling_std_at_def Let_def split: if_splits)
  have c: "length (filter notna ?w) \<le> length ?w" by simp
  from a c have len: "length (filter notna ?w) = length ?w" and w: "W \<le> Suc p"
    using length_window_at[OF p, of W] by (auto simp: min_def split: if_splits)
  from len have "filter notna ?w = ?w" by (rule filter_full)
  then have "list_all notna ?w" by (simp add: list_all_iff filter_id_conv)
  moreover from a b c length_window_at[OF p, of W] have "2 \<le> W" by (auto simp: min_def split: if_splits)
  ultimately show ?thesis using w by simp
qed

lemma rolling_small_window:
  assumes "W \<le> 1" shows "rolling_std_at art W xs p = NaN"
proof -
  have "length (window_at W xs p) \<le> 1"
    using assms by (cases "W = 0") (auto simp: window_at_def)
  then have "length (filter notna (window_at W xs p)) < 2"
    using length_filter_le[of notna "window_at W xs p"] by linarith
  then show ?thesis
    by (simp add: rolling_std_at_def Let_def)
qed

lemma rolling_large_window:
  assumes "length xs < W" and "p < length xs"
  shows "rolling_std_at art W xs p = NaN"
proof -
  have "length (window_at W xs p) < W"
    using assms by (simp add: window_at_def)
  then have "length (filter notna (window_at W xs p)) < W"
    using length_filter_le[of notna "window_at W xs p"] by linarith
  then show ?thesis
    by (simp add: rolling_std_at_def Let_def)
qed

lemma rolling_clean:
  assumes p: "p < length xs" and W: "2 \<le> W"
    and clean: "list_all (\<lambda>v. v = NaN \<or> fl_finite v) (take (Suc p) xs)"
  shows "rolling_std_at art W xs p =
           (if W \<le> Suc p \<and> list_all fl_finite (window_at W xs p)
            then Num (sample_std (map num_of (window_at W xs p))) else NaN)"
proof -
  let ?w = "window_at W xs p"
  from clean have fin: "list_all fl_finite (filter notna (take (Suc p) xs))"
    by (auto simp: list_all_iff notna_def)
  show ?thesis
  proof (cases "W \<le> Suc p \<and> list_all fl_finite ?w")
    case True
    then have "filter notna ?w = ?w" by (simp add: filter_notna_nums)
    moreover have "length ?w = W"
      using True length_window_at[OF p, of W] by (simp add: min_def)
    ultimately show ?thesis
      using True W fin by (simp add: rolling_std_at_def Let_def std_ddof1_nums)
  next
    case False
    have "rolling_std_at art W xs p = NaN"
    proof (rule ccontr)
      assume d: "rolling_std_at art W xs p \<noteq> NaN"
      from rolling_defined[OF p d] have w: "W \<le> Suc p" and nn: "list_all notna ?w" by simp_all
      have "list_all fl_finite ?w"
        using nn clean set_window_at[of W xs p] by (auto simp: list_all_iff notna_def)
      with w False show False by simp
    qed
    with False show ?thesis by simp
  qed
qed

lemma window_last_n:
  assumes p: "p < length xs" and w: "W \<le> Suc p" and nn: "list_all notna (window_at W xs p)"
  shows "last_n W (filter notna (take (Suc p) xs)) = window_at W xs p"
proof -
  let ?t = "take (Suc p) xs"
  have split: "?t = take (Suc p - W) ?t @ window_at W xs p"
    unfolding window_at_def by (rule append_take_drop_id[symmetric])
  have len: "length (window_at W xs p) = W"
    using w length_window_at[OF p, of W] by (simp add: min_def)
  have "filter notna ?t = filter notna (take (Suc p - W) ?t) @ filter notna (window_at W xs p)"
    by (subst split) (simp only: filter_append)
  also have "filter notna (window_at W xs p) = window_at W xs p"
    using nn by (simp add: list_all_iff filter_id_conv)
  finally show ?thesis
    by (simp add: last_n_def len)
qed

text \<open>
  C2 (as stated, refuted). With window 1 and three trades at positive prices the
  log-return series has defined values at positions 1 and 2, yet the rolling volatility
  is undefined everywhere (one observation has no sample standard deviation). With
  window 2 and a negative price at the third of five trades, two defined log returns
  exist at or before the last position, yet the rolling volatility is undefined there:
  the window is the last two positions, not the last two defined values. With window 2
  and the price 0 at the second of five trades, the log returns at positions 1 and 2
  are \<open>-inf\<close> and \<open>+inf\<close>: neither is missing, yet the rolling volatility at position 2
  is undefined.
\<close>

theorem C2_counterexample:
  "vol_main art_nan 1 False ledger_flat
     = Inr (enrich art_nan 1 (vol_rows False ledger_flat), summary (vol_rows False ledger_flat)) \<and>
   vf_log_ret (enrich art_nan 1 (vol_rows False ledger_flat)) = [NaN, Num 0, Num 0] \<and>
   vf_rolling_vol_logret (enrich art_nan 1 (vol_rows False ledger_flat)) = [NaN, NaN, NaN] \<and>
   vol_main art_nan 2 False ledger_dip
     = Inr (enrich art_nan 2 (vol_rows False ledger_dip), summary (vol_rows False ledger_dip)) \<and>
   vf_log_ret (enrich art_nan 2 (vol_rows False ledger_dip)) = [NaN, Num 0, NaN, NaN, Num 0] \<and>
   vf_rolling_vol_logret (enrich art_nan 2 (vol_rows False ledger_dip)) = [NaN, NaN, NaN, NaN, NaN] \<and>
   vf_log_ret (enrich art_nan 2 (vol_rows False ledger_zero)) = [NaN, NegInf, PosInf, Num 0, Num 0] \<and>
   vf_rolling_vol_logret (enrich art_nan 2 (vol_rows False ledger_zero)) ! 2 = NaN"
proof -
  have a: "vf_log_ret (enrich art_nan 1 (vol_rows False ledger_flat)) = [NaN, Num 0, Num 0]"
    by (simp add: ledger_flat_def vol_eval eval_simps)
  have b: "vf_rolling_vol_logret (enrich art_nan 1 (vol_rows False ledger_flat)) = [NaN, NaN, NaN]"
    by (simp add: ledger_flat_def vol_eval eval_simps upt_3)
  have c: "vf_log_ret (enrich art_nan 2 (vol_rows False ledger_dip)) = [NaN, Num 0, NaN, NaN, Num 0]"
    by (simp add: ledger_dip_def vol_eval eval_simps)
  have d: "vf_rolling_vol_logret (enrich art_nan 2 (vol_rows False ledger_dip)) = [NaN, NaN, NaN, NaN, NaN]"
    by (simp add: ledger_dip_def vol_eval eval_simps upt_5)
  have e: "vf_log_ret (enrich art_nan 2 (vol_rows False ledger_zero)) = [NaN, NegInf, PosInf, Num 0, Num 0]"
    by (simp add: ledger_zero_def vol_eval eval_simps)
  have "vf_rolling_vol_logret (enrich art_nan 2 (vol_rows False ledger_zero)) = [NaN, NaN, NaN, NaN, NaN]"
    by (simp add: ledger_zero_def vol_eval eval_simps upt_5 art_nan_def)
  then have f: "vf_rolling_vol_logret (enrich art_nan 2 (vol_rows False ledger_zero)) ! 2 = NaN"
    by simp
  show ?thesis
    using a b c d e f by (simp add: vol_main_small)
qed

text \<open>
  C2 (amended). At every position \<open>p\<close> of a session's ordered series: for a window
  \<open>W \<le> 1\<close> the rolling volatility is undefined; whenever it is defined, \<open>W \<ge> 2\<close>, the \<open>W\<close>
  positions ending at \<open>p\<close> all lie in the session and all carry a defined log return, so
  at least \<open>W\<close> defined log returns exist at or before \<open>p\<close>. For \<open>W \<ge> 2\<close> and a session
  with no infinite log return at or before \<open>p\<close>, the rolling volatility is defined if
  and only if the \<open>W\<close> positions ending at \<open>p\<close> all lie in the session and all carry a
  finite log return, and it is then the sample standard deviation (divisor \<open>W - 1\<close>) of
  the most recent \<open>W\<close> defined log returns.
\<close>

theorem C2_rolling_volatility:
  assumes main: "vol_main art W flt ledger = Inr (fr, sm)"
    and p: "p < length (session_col (vf_rows fr) s (vf_log_ret fr))"
  shows "(W \<le> 1 \<longrightarrow> session_col (vf_rows fr) s (vf_rolling_vol_logret fr) ! p = NaN) \<and>
         (session_col (vf_rows fr) s (vf_rolling_vol_logret fr) ! p \<noteq> NaN \<longrightarrow>
            2 \<le> W \<and> nat W \<le> Suc p \<and>
            list_all notna (window_at (nat W) (session_col (vf_rows fr) s (vf_log_ret fr)) p) \<and>
            nat W \<le> length (filter notna (take (Suc p) (session_col (vf_rows fr) s (vf_log_ret fr))))) \<and>
         (2 \<le> W \<and>
          list_all (\<lambda>v. v = NaN \<or> fl_finite v) (take (Suc p) (session_col (vf_rows fr) s (vf_log_ret fr))) \<longrightarrow>
            (session_col (vf_rows fr) s (vf_rolling_vol_logret fr) ! p \<noteq> NaN \<longleftrightarrow>
               nat W \<le> Suc p \<and>
               list_all fl_finite (window_at (nat W) (session_col (vf_rows fr) s (vf_log_ret fr)) p)) \<and>
            (session_col (vf_rows fr) s (vf_rolling_vol_logret fr) ! p \<noteq> NaN \<longrightarrow>
               session_col (vf_rows fr) s (vf_rolling_vol_logret fr) ! p
                 = Num (sample_std (map num_of (last_n (nat W)
                     (filter notna (take (Suc p) (session_col (vf_rows fr) s (vf_log_ret fr)))))))))"
proof -
  let ?rows = "vol_rows flt ledger"
  let ?lr = "session_col ?rows s (log_ret_col ?rows)"
  let ?rv = "session_col ?rows s (rolling_vol_logret_col art (nat W) ?rows) ! p"
  from vol_main_Inr[OF main]
  have W0: "0 \<le> W" and fr: "fr = enrich art (nat W) ?rows" by simp_all
  have sel: "vf_rows fr = ?rows" "vf_log_ret fr = log_ret_col ?rows"
    "vf_rolling_vol_logret fr = rolling_vol_logret_col art (nat W) ?rows"
    by (simp_all add: fr enrich_def)
  from p have p': "p < length ?lr" by (simp add: sel)
  have rv: "?rv = rolling_std_at art (nat W) ?lr p"
    using p' by (simp add: session_rolling rolling_nth)
  have a: "W \<le> 1 \<longrightarrow> ?rv = NaN"
    unfolding rv using W0 by (auto intro: rolling_small_window)
  have b: "2 \<le> W \<and> nat W \<le> Suc p \<and> list_all notna (window_at (nat W) ?lr p) \<and>
           nat W \<le> length (filter notna (take (Suc p) ?lr))" if d: "?rv \<noteq> NaN"
  proof -
    from d have d': "rolling_std_at art (nat W) ?lr p \<noteq> NaN" by (simp add: rv)
    from rolling_defined[OF p' d']
    have w2: "2 \<le> nat W" and w: "nat W \<le> Suc p" and nn: "list_all notna (window_at (nat W) ?lr p)"
      by simp_all
    from window_last_n[OF p' w nn]
    have "length (last_n (nat W) (filter notna (take (Suc p) ?lr))) = length (window_at (nat W) ?lr p)"
      by simp
    also have "\<dots> = nat W"
      using w length_window_at[OF p', of "nat W"] by (simp add: min_def)
    finally have "nat W \<le> length (filter notna (take (Suc p) ?lr))"
      by (simp add: last_n_def)
    with w2 w nn show ?thesis by simp
  qed
  have c: "(?rv \<noteq> NaN \<longleftrightarrow> nat W \<le> Suc p \<and> list_all fl_finite (window_at (nat W) ?lr p)) \<and>
           (?rv \<noteq> NaN \<longrightarrow> ?rv = Num (sample_std (map num_of (last_n (nat W)
               (filter notna (take (Suc p) ?lr))))))"
    if W2: "2 \<le> W" and clean: "list_all (\<lambda>v. v = NaN \<or> fl_finite v) (take (Suc p) ?lr)"
  proof -
    from W2 have w2: "2 \<le> nat W" by simp
    note eq = rolling_clean[OF p' w2 clean, of art]
    have iff: "?rv \<noteq> NaN \<longleftrightarrow> nat W \<le> Suc p \<and> list_all fl_finite (window_at (nat W) ?lr p)"
      unfolding rv eq by simp
    have val: "?rv = Num (sample_std (map num_of (last_n (nat W) (filter notna (take (Suc p) ?lr)))))"
      if d: "?rv \<noteq> NaN"
    proof -
      from d iff have w: "nat W \<le> Suc p" and fin: "list_all fl_finite (window_at (nat W) ?lr p)"
        by simp_all
      from fin have nn: "list_all notna (window_at (nat W) ?lr p)"
        by (auto simp: list_all_iff fl_finite_notna)
      show ?thesis
        unfolding rv eq window_last_n[OF p' w nn] using w fin by simp
    qed
    from iff val show ?thesis by blast
  qed
  from a b c show ?thesis
    unfolding sel by blast
qed

theorem C2_rolling_volatility_witness:
  "vol_main art_nan 2 False ledger_flat
     = Inr (enrich art_nan 2 (vol_rows False ledger_flat), summary (vol_rows False ledger_flat)) \<and>
   session_col (vol_rows False ledger_flat) 7 (log_ret_col (vol_rows False ledger_flat))
     = [NaN, Num 0, Num 0] \<and>
   session_col (vol_rows False ledger_flat) 7
     (rolling_vol_logret_col art_nan 2 (vol_rows False ledger_flat)) ! 2 = Num 0"
proof -
  let ?R = "vol_rows False ledger_flat"
  let ?rv = "session_col ?R 7 (rolling_vol_logret_col art_nan 2 ?R) ! 2"
  have eq: "vol_main art_nan 2 False ledger_flat = Inr (enrich art_nan 2 ?R, summary ?R)"
    by (simp add: vol_main_small)
  have sel: "vf_rows (enrich art_nan 2 ?R) = ?R" "vf_log_ret (enrich art_nan 2 ?R) = log_ret_col ?R"
    "vf_rolling_vol_logret (enrich art_nan 2 ?R) = rolling_vol_logret_col art_nan 2 ?R"
    by (simp_all add: enrich_def)
  have lr: "session_col ?R 7 (log_ret_col ?R) = [NaN, Num 0, Num 0]"
    by (simp add: ledger_flat_def vol_eval eval_simps)
  have p: "2 < length (session_col (vf_rows (enrich art_nan 2 ?R)) 7 (vf_log_ret (enrich art_nan 2 ?R)))"
    by (simp add: sel lr)
  note c2 = C2_rolling_volatility[OF eq p, THEN conjunct2, THEN conjunct2]
  from c2 have defined: "?rv \<noteq> NaN"
    by (simp add: sel lr window_at_def fl_finite_def)
  with c2 have "?rv = Num (sample_std [0, 0])"
    by (simp add: sel lr notna_def last_n_def num_of_def fl_finite_def window_at_def)
  then have "?rv = Num 0"
    by (simp add: sample_std_def mean_def)
  with eq lr show ?thesis by blast
qed

subsection \<open>Window sizes\<close>

text \<open>
  C8 (as stated, refuted). A negative window is a value \<open>W \<le> 1\<close>, and a window of
  \<open>2^63\<close> exceeds every trade count; both are rejected with an error instead of yielding
  an all-undefined series.
\<close>

theorem C8_window_error_counterexample:
  "vol_main art_nan (- 1) False ledger_flat = Inl ValueError \<and>
   vol_main art_nan 9223372036854775808 False ledger_flat = Inl OverflowError"
  by (simp add: vol_main_def Let_def ledger_flat_def vol_rows_def eval_simps)

text \<open>
  C8 (amended). For every window \<open>0 \<le> W < 2^63\<close> the computation returns a result. A
  negative window is rejected with a \<open>ValueError\<close>, and a window \<open>W \<ge> 2^63\<close> with an
  \<open>OverflowError\<close> when the frame has a row with a session id. Whenever a result is
  returned, the rolling volatility series of a session is undefined at every position
  when \<open>W \<le> 1\<close> or \<open>W\<close> exceeds the session's trade count.
\<close>

theorem C8_degenerate_window:
  "(W < 0 \<longrightarrow> vol_main art W flt ledger = Inl ValueError) \<and>
   (2 ^ 63 \<le> W \<and> (\<exists>r\<in>set (vol_rows flt ledger). trading_session_uuid r \<noteq> None) \<longrightarrow>
      vol_main art W flt ledger = Inl OverflowError) \<and>
   (0 \<le> W \<and> W < 2 ^ 63 \<longrightarrow>
      vol_main art W flt ledger
        = Inr (enrich art (nat W) (vol_rows flt ledger), summary (vol_rows flt ledger))) \<and>
   (\<forall>fr sm. vol_main art W flt ledger = Inr (fr, sm) \<and>
        (W \<le> 1 \<or> int (length (session_rows (vf_rows fr) s)) < W) \<longrightarrow>
      list_all (\<lambda>v. v = NaN) (session_col (vf_rows fr) s (vf_rolling_vol_logret fr)))"
proof -
  let ?rows = "vol_rows flt ledger"
  let ?lr = "session_col ?rows s (log_ret_col ?rows)"
  have a: "W < 0 \<longrightarrow> vol_main art W flt ledger = Inl ValueError"
    by (simp add: vol_main_def Let_def)
  have "somes (sessions ?rows) \<noteq> []" if "\<exists>r\<in>set ?rows. trading_session_uuid r \<noteq> None"
  proof -
    from that obtain r k where "r \<in> set ?rows" "trading_session_uuid r = Some k" by auto
    then have "k \<in> set (somes (sessions ?rows))"
      by (force simp: set_somes sessions_def image_iff)
    then show ?thesis by auto
  qed
  then have b: "2 ^ 63 \<le> W \<and> (\<exists>r\<in>set ?rows. trading_session_uuid r \<noteq> None) \<longrightarrow>
      vol_main art W flt ledger = Inl OverflowError"
    by (auto simp: vol_main_def Let_def)
  have c: "0 \<le> W \<and> W < 2 ^ 63 \<longrightarrow>
      vol_main art W flt ledger = Inr (enrich art (nat W) ?rows, summary ?rows)"
    by (simp add: vol_main_small)
  have d: "list_all (\<lambda>v. v = NaN) (session_col (vf_rows fr) s (vf_rolling_vol_logret fr))"
    if main: "vol_main art W flt ledger = Inr (fr, sm)"
      and deg: "W \<le> 1 \<or> int (length (session_rows (vf_rows fr) s)) < W" for fr sm
  proof -
    from vol_main_Inr[OF main]
    have W0: "0 \<le> W" and fr: "fr = enrich art (nat W) ?rows" by simp_all
    have sel: "vf_rows fr = ?rows"
      "vf_rolling_vol_logret fr = rolling_vol_logret_col art (nat W) ?rows"
      by (simp_all add: fr enrich_def)
    have "rolling_std_at art (nat W) ?lr p = NaN" if p: "p < length ?lr" for p
    proof (cases "W \<le> 1")
      case True
      then show ?thesis by (intro rolling_small_window) simp
    next
      case False
      with deg have "length ?lr < nat W" by (simp add: sel length_session_log_ret)
      then show ?thesis using p by (rule rolling_large_window)
    qed
    then have "list_all (\<lambda>v. v = NaN) (rolling_std_series art (nat W) ?lr)"
      by (simp add: rolling_std_series_def list_all_iff)
    then show ?thesis by (simp add: sel session_rolling)
  qed
  from a b c d show ?thesis by blast
qed

theorem C8_degenerate_window_witness:
  "vol_main art_nan 0 False ledger_flat
     = Inr (enrich art_nan 0 (vol_rows False ledger_flat), summary (vol_rows False ledger_flat)) \<and>
   length (session_col (vol_rows False ledger_flat) 7
      (vf_rolling_vol_logret (enrich art_nan 0 (vol_rows False ledger_flat)))) = 3 \<and>
   list_all (\<lambda>v. v = NaN)
     (session_col (vol_rows False ledger_flat) 7
        (vf_rolling_vol_logret (enrich art_nan 0 (vol_rows False ledger_flat))))"
proof -
  let ?R = "vol_rows False ledger_flat"
  have len: "length (session_col ?R 7 (vf_rolling_vol_logret (enrich art_nan 0 ?R))) = 3"
    by (simp add: enrich_def session_rolling length_session_log_ret length_rolling_std_series)
       (simp add: ledger_flat_def vol_rows_def session_rows_def eval_simps)
  note c8 = C8_degenerate_window[of 0 art_nan False ledger_flat 7]
  from c8 have eq: "vol_main art_nan 0 False ledger_flat = Inr (enrich art_nan 0 ?R, summary ?R)"
    by simp
  have sel: "vf_rows (enrich art_nan 0 ?R) = ?R" by (simp add: enrich_def)
  from c8[THEN conjunct2, THEN conjunct2, THEN conjunct2, rule_format, of "enrich art_nan 0 ?R" "summary ?R"] eq
  have "list_all (\<lambda>v. v = NaN)
     (session_col (vf_rows (enrich art_nan 0 ?R)) 7 (vf_rolling_vol_logret (enrich art_nan 0 ?R)))"
    by simp
  with eq len show ?thesis by (simp add: sel)
qed

subsection \<open>Realized volatility\<close>

lemma summary_sessions: "map vs_session (summary rows) = group_keys (sessions rows)"
  by (simp add: summary_def Let_def comp_def)

lemma summary_row:
  assumes "row \<in> set (summary rows)"
  shows "n_trades row = length (session_rows rows (vs_session row)) \<and>
         realized_vol_logret row = np_std (session_col rows (vs_session row) (log_ret_col rows)) \<and>
         realized_vol_ret row = np_std (session_col rows (vs_session row) (ret_col rows))"
proof -
  have "group_vals (sessions rows) k rows = session_rows rows k" for k
    using group_vals_map[of trading_session_uuid rows k "\<lambda>r. r"]
    by (simp add: sessions_def session_rows_def)
  with assms show ?thesis
    by (auto simp: summary_def Let_def session_col_def)
qed

text \<open>
  C4 (as stated, refuted). In a session with the prices 1, 0, 1, 1, 1 the log returns
  are undefined, \<open>-inf\<close>, \<open>+inf\<close>, 0, 0: four of them are not missing and two are finite
  (their sample standard deviation is 0), yet \<open>realized_vol_logret\<close> is undefined.
\<close>

theorem C4_zero_price_counterexample:
  "vol_main art_nan 10 False ledger_zero
     = Inr (enrich art_nan 10 (vol_rows False ledger_zero), summary (vol_rows False ledger_zero)) \<and>
   vf_log_ret (enrich art_nan 10 (vol_rows False ledger_zero)) = [NaN, NegInf, PosInf, Num 0, Num 0] \<and>
   map realized_vol_logret (summary (vol_rows False ledger_zero)) = [NaN]"
proof -
  have a: "vf_log_ret (enrich art_nan 10 (vol_rows False ledger_zero)) = [NaN, NegInf, PosInf, Num 0, Num 0]"
    by (simp add: ledger_zero_def vol_eval eval_simps)
  have b: "map realized_vol_logret (summary (vol_rows False ledger_zero)) = [NaN]"
    by (simp add: ledger_zero_def vol_eval eval_simps Let_def)
  from a b show ?thesis by (simp add: vol_main_small)
qed

text \<open>
  C4 (amended). The session summary has exactly one row for every session of the frame.
  In each row, \<open>realized_vol_logret\<close> is computed from the non-missing values of the
  session's log returns (the consecutive differences of the log prices of its rows): it
  is undefined, never zero, when there are fewer than two of them, undefined when one of
  them is infinite, and otherwise their Bessel-corrected sample standard deviation
  (divisor \<open>n - 1\<close>). The same holds for \<open>realized_vol_ret\<close> and the session's simple
  returns (the consecutive relative changes of the prices).
\<close>

theorem C4_realized_volatility:
  assumes main: "vol_main art W flt ledger = Inr (fr, sm)"
  shows "distinct (map vs_session sm) \<and>
         set (map vs_session sm) = {s. \<exists>r\<in>set (vf_rows fr). trading_session_uuid r = Some s} \<and>
         (\<forall>row\<in>set sm.
            realized_vol_logret row =
              (let xs = filter notna (session_col (vf_rows fr) (vs_session row) (vf_log_ret fr))
               in if length xs < 2 then NaN
                  else if list_all fl_finite xs then Num (sample_std (map num_of xs)) else NaN) \<and>
            realized_vol_ret row =
              (let xs = filter notna (session_col (vf_rows fr) (vs_session row) (vf_ret fr))
               in if length xs < 2 then NaN
                  else if list_all fl_finite xs then Num (sample_std (map num_of xs)) else NaN) \<and>
            session_col (vf_rows fr) (vs_session row) (vf_log_ret fr)
              = series_diff fl_sub NaN
                  (map (\<lambda>r. np_log (price r)) (session_rows (vf_rows fr) (vs_session row))) \<and>
            session_col (vf_rows fr) (vs_session row) (vf_ret fr)
              = series_diff pct NaN (map price (session_rows (vf_rows fr) (vs_session row))))"
proof -
  let ?rows = "vol_rows flt ledger"
  from vol_main_Inr[OF main]
  have fr: "fr = enrich art (nat W) ?rows" and sm: "sm = summary ?rows" by simp_all
  have sel: "vf_rows fr = ?rows" "vf_log_ret fr = log_ret_col ?rows" "vf_ret fr = ret_col ?rows"
    by (simp_all add: fr enrich_def)
  have a: "distinct (map vs_session sm)"
    by (simp add: sm summary_sessions distinct_group_keys)
  have b: "set (map vs_session sm) = {s. \<exists>r\<in>set ?rows. trading_session_uuid r = Some s}"
    by (force simp: sm summary_sessions set_group_keys sessions_def image_iff)
  have c: "realized_vol_logret row =
              (let xs = filter notna (session_col ?rows (vs_session row) (log_ret_col ?rows))
               in if length xs < 2 then NaN
                  else if list_all fl_finite xs then Num (sample_std (map num_of xs)) else NaN) \<and>
           realized_vol_ret row =
              (let xs = filter notna (session_col ?rows (vs_session row) (ret_col ?rows))
               in if length xs < 2 then NaN
                  else if list_all fl_finite xs then Num (sample_std (map num_of xs)) else NaN)"
    if "row \<in> set sm" for row
    using summary_row[of row ?rows] that
    by (simp add: sm np_std_def std_ddof1_def sample_std_def Let_def)
  show ?thesis
    unfolding sel using a b c by (simp add: session_log_ret session_ret)
qed

theorem C4_realized_volatility_witness:
  "vol_main art_nan 10 False ledger_flat
     = Inr (enrich art_nan 10 (vol_rows False ledger_flat), summary (vol_rows False ledger_flat)) \<and>
   map vs_session (summary (vol_rows False ledger_flat)) = [7] \<and>
   realized_vol_logret (hd (summary (vol_rows False ledger_flat))) = Num 0 \<and>
   realized_vol_ret (hd (summary (vol_rows False ledger_flat))) = Num 0"
proof -
  let ?R = "vol_rows False ledger_flat"
  have eq: "vol_main art_nan 10 False ledger_flat = Inr (enrich art_nan 10 ?R, summary ?R)"
    by (simp add: vol_main_small)
  have sel: "vf_rows (enrich art_nan 10 ?R) = ?R" "vf_log_ret (enrich art_nan 10 ?R) = log_ret_col ?R"
    "vf_ret (enrich art_nan 10 ?R) = ret_col ?R"
    by (simp_all add: enrich_def)
  have keys: "map vs_session (summary ?R) = [7]"
    by (simp add: ledger_flat_def summary_def vol_rows_def Let_def eval_simps)
  then have mem: "hd (summary ?R) \<in> set (summary ?R)" and s: "vs_session (hd (summary ?R)) = 7"
    by (cases "summary ?R"; simp)+
  have lr: "session_col ?R 7 (log_ret_col ?R) = [NaN, Num 0, Num 0]"
    by (simp add: ledger_flat_def vol_eval eval_simps)
  have rt: "session_col ?R 7 (ret_col ?R) = [NaN, Num 0, Num 0]"
    by (simp add: ledger_flat_def vol_eval eval_simps)
  from C4_realized_volatility[OF eq, THEN conjunct2, THEN conjunct2, rule_format, OF mem]
  have "realized_vol_logret (hd (summary ?R)) =
          (let xs = filter notna (session_col ?R 7 (log_ret_col ?R))
           in if length xs < 2 then NaN
              else if list_all fl_finite xs then Num (sample_std (map num_of xs)) else NaN) \<and>
        realized_vol_ret (hd (summary ?R)) =
          (let xs = filter notna (session_col ?R 7 (ret_col ?R))
           in if length xs < 2 then NaN
              else if list_all fl_finite xs then Num (sample_std (map num_of xs)) else NaN)"
    unfolding sel s by simp
  then have "realized_vol_logret (hd (summary ?R)) = Num (sample_std [0, 0]) \<and>
        realized_vol_ret (hd (summary ?R)) = Num (sample_std [0, 0])"
    by (simp add: lr rt notna_def fl_finite_def num_of_def Let_def)
  then have "realized_vol_logret (hd (summary ?R)) = Num 0 \<and> realized_vol_ret (hd (summary ?R)) = Num 0"
    by (simp add: sample_std_def mean_def)
  with eq keys show ?thesis by blast
qed

subsection \<open>Log prices and non-positive prices\<close>

lemma fl_sub_finite:
  "fl_finite (fl_sub a b) \<Longrightarrow> fl_finite a \<and> fl_finite b"
  by (cases a; cases b) (simp_all add: fl_finite_def)

lemma np_log_finite:
  "fl_finite (np_log v) \<Longrightarrow> \<exists>x. v = Num x \<and> 0 < x \<and> np_log v = Num (ln x)"
  by (cases v) (auto simp: fl_finite_def split: if_splits)

lemma session_log_ret_nth:
  "p < length (session_rows rows s) \<Longrightarrow>
   session_col rows s (log_ret_col rows) ! p =
     (if p = 0 then NaN
      else fl_sub (np_log (price (session_rows rows s ! p)))
                  (np_log (price (session_rows rows s ! (p - 1)))))"
  by (simp add: session_log_ret series_diff_nth)

lemma session_ret_nth:
  "p < length (session_rows rows s) \<Longrightarrow>
   session_col rows s (ret_col rows) ! p =
     (if p = 0 then NaN
      else pct (price (session_rows rows s ! p)) (price (session_rows rows s ! (p - 1))))"
  by (simp add: session_ret series_diff_nth)

text \<open>
  C7 (as stated, refuted). A row with a non-positive price is not excluded from the
  return-based statistics. With the prices 1, 1, -1, 1, 1 the row counts in \<open>n_trades\<close>,
  its simple return and that of the next row are computed from the negative price, and
  they enter \<open>realized_vol_ret\<close>, which differs from the value obtained when the row is
  left out. With the prices 1, 0, 1, 1, 1 the log price of the second row is \<open>-inf\<close>, and
  it enters \<open>realized_vol_logret\<close>, which is undefined instead of the 0 obtained when
  the row is left out.
\<close>

theorem C7_non_positive_price_counterexample:
  "vf_ret (enrich art_nan 2 (vol_rows False ledger_dip)) = [NaN, Num 0, Num (- 2), Num (- 2), Num 0] \<and>
   map n_trades (summary (vol_rows False ledger_dip)) = [5] \<and>
   map realized_vol_ret (summary (vol_rows False ledger_dip)) = [Num (sample_std [0, - 2, - 2, 0])] \<and>
   map realized_vol_ret (summary (vol_rows False (filter (\<lambda>r. gt0 (price r)) ledger_dip))) = [Num 0] \<and>
   sample_std [0, - 2, - 2, 0] \<noteq> 0 \<and>
   vf_log_price (enrich art_nan 2 (vol_rows False ledger_zero)) = [Num 0, NegInf, Num 0, Num 0, Num 0] \<and>
   map realized_vol_logret (summary (vol_rows False ledger_zero)) = [NaN] \<and>
   map realized_vol_logret (summary (vol_rows False (filter (\<lambda>r. gt0 (price r)) ledger_zero))) = [Num 0]"
proof -
  have a: "vf_ret (enrich art_nan 2 (vol_rows False ledger_dip)) = [NaN, Num 0, Num (- 2), Num (- 2), Num 0]"
    by (simp add: ledger_dip_def vol_eval eval_simps)
  have b: "map n_trades (summary (vol_rows False ledger_dip)) = [5]"
    by (simp add: ledger_dip_def vol_rows_def summary_def Let_def eval_simps)
  have c: "map realized_vol_ret (summary (vol_rows False ledger_dip)) = [Num (sample_std [0, - 2, - 2, 0])]"
    by (simp add: ledger_dip_def vol_eval eval_simps sample_std_def Let_def)
  have d: "map realized_vol_ret (summary (vol_rows False (filter (\<lambda>r. gt0 (price r)) ledger_dip))) = [Num 0]"
    by (simp add: ledger_dip_def vol_eval eval_simps mean_def Let_def)
  have e: "sample_std [0, - 2, - 2, 0] \<noteq> 0"
    by (simp add: sample_std_def mean_def)
  have f: "vf_log_price (enrich art_nan 2 (vol_rows False ledger_zero)) = [Num 0, NegInf, Num 0, Num 0, Num 0]"
    by (simp add: ledger_zero_def vol_eval eval_simps)
  have g: "map realized_vol_logret (summary (vol_rows False ledger_zero)) = [NaN]"
    by (simp add: ledger_zero_def vol_eval eval_simps Let_def)
  have h: "map realized_vol_logret (summary (vol_rows False (filter (\<lambda>r. gt0 (price r)) ledger_zero))) = [Num 0]"
    by (simp add: ledger_zero_def vol_eval eval_simps mean_def Let_def)
  from a b c d e f g h show ?thesis by blast
qed

text \<open>
  C7 (amended). (1) A row whose price is unparsable is dropped before anything is
  computed: the result is that of the ledger without such rows. (2) Every other row that
  has a timestamp and passes the self-trade filter is in the frame, whatever the sign of
  its price. (3) \<open>log_price\<close> is the natural logarithm of a positive finite price, \<open>-inf\<close>
  for the price 0 and undefined for a negative price. (4) At every position of a session
  after the first, the log return is the difference of the log prices of the row and of
  its predecessor, and the simple return is \<open>price[i] / price[i-1] - 1\<close>, computed from
  the prices whatever their sign; at the first position both are undefined. Hence a
  finite log return is the difference of the logarithms of two positive prices, the log
  return of a row with a negative price and that of the next row are undefined, and the
  log return of a row with price 0 after a positive price is \<open>-inf\<close>. (5) A defined
  rolling volatility has no undefined log return in its window. (6) In each summary row
  \<open>n_trades\<close> counts all rows of the session, and \<open>realized_vol_logret\<close> and
  \<open>realized_vol_ret\<close> skip the undefined log and simple returns of the session, are
  undefined when fewer than two remain or one of them is infinite, and are otherwise the
  sample standard deviation of all that remain.
\<close>

theorem C7_log_price:
  assumes main: "vol_main art W flt ledger = Inr (fr, sm)"
  shows "vol_main art W flt (filter (\<lambda>r. price r \<noteq> NaN) ledger) = Inr (fr, sm) \<and>
         (\<forall>r. r \<in> set (vf_rows fr) \<longleftrightarrow>
            r \<in> set ledger \<and> price r \<noteq> NaN \<and> timestamp_dt r \<noteq> None \<and>
            (flt \<longrightarrow> ne_col (bid_trader_uuid r) (ask_trader_uuid r))) \<and>
         (\<forall>i<length (vf_rows fr).
            (\<forall>x. price (vf_rows fr ! i) = Num x \<and> 0 < x \<longrightarrow> vf_log_price fr ! i = Num (ln x)) \<and>
            (price (vf_rows fr ! i) = Num 0 \<longrightarrow> vf_log_price fr ! i = NegInf) \<and>
            (\<forall>x. price (vf_rows fr ! i) = Num x \<and> x < 0 \<longrightarrow> vf_log_price fr ! i = NaN)) \<and>
         (\<forall>s. \<forall>p<length (session_rows (vf_rows fr) s).
            session_col (vf_rows fr) s (vf_log_ret fr) ! p =
              (if p = 0 then NaN
               else fl_sub (np_log (price (session_rows (vf_rows fr) s ! p)))
                           (np_log (price (session_rows (vf_rows fr) s ! (p - 1))))) \<and>
            session_col (vf_rows fr) s (vf_ret fr) ! p =
              (if p = 0 then NaN
               else pct (price (session_rows (vf_rows fr) s ! p))
                        (price (session_rows (vf_rows fr) s ! (p - 1)))) \<and>
            (fl_finite (session_col (vf_rows fr) s (vf_log_ret fr) ! p) \<longrightarrow>
               0 < p \<and>
               (\<exists>x y. price (session_rows (vf_rows fr) s ! p) = Num x \<and> 0 < x \<and>
                      price (session_rows (vf_rows fr) s ! (p - 1)) = Num y \<and> 0 < y \<and>
                      session_col (vf_rows fr) s (vf_log_ret fr) ! p = Num (ln x - ln y))) \<and>
            (\<forall>x. price (session_rows (vf_rows fr) s ! p) = Num x \<and> x < 0 \<longrightarrow>
               session_col (vf_rows fr) s (vf_log_ret fr) ! p = NaN \<and>
               (Suc p < length (session_rows (vf_rows fr) s) \<longrightarrow>
                  session_col (vf_rows fr) s (vf_log_ret fr) ! Suc p = NaN)) \<and>
            (\<forall>y. 0 < p \<and> price (session_rows (vf_rows fr) s ! p) = Num 0 \<and>
                 price (session_rows (vf_rows fr) s ! (p - 1)) = Num y \<and> 0 < y \<longrightarrow>
               session_col (vf_rows fr) s (vf_log_ret fr) ! p = NegInf) \<and>
            (\<forall>x y. 0 < p \<and> price (session_rows (vf_rows fr) s ! p) = Num x \<and>
                   price (session_rows (vf_rows fr) s ! (p - 1)) = Num y \<and> y \<noteq> 0 \<longrightarrow>
               session_col (vf_rows fr) s (vf_ret fr) ! p = Num (x / y - 1)) \<and>
            (session_col (vf_rows fr) s (vf_rolling_vol_logret fr) ! p \<noteq> NaN \<longrightarrow>
               list_all notna (window_at (nat W) (session_col (vf_rows fr) s (vf_log_ret fr)) p))) \<and>
         (\<forall>row\<in>set sm.
            n_trades row = length (session_rows (vf_rows fr) (vs_session row)) \<and>
            realized_vol_logret row =
              (let xs = filter notna (session_col (vf_rows fr) (vs_session row) (vf_log_ret fr))
               in if length xs < 2 then NaN
                  else if list_all fl_finite xs then Num (sample_std (map num_of xs)) else NaN) \<and>
            realized_vol_ret row =
              (let xs = filter notna (session_col (vf_rows fr) (vs_session row) (vf_ret fr))
               in if length xs < 2 then NaN
                  else if list_all fl_finite xs then Num (sample_std (map num_of xs)) else NaN))"
proof -
  let ?rows = "vol_rows flt ledger"
  from vol_main_Inr[OF main]
  have W: "0 \<le> W" and fr: "fr = enrich art (nat W) ?rows" and sm: "sm = summary ?rows" by simp_all
  have sel: "vf_rows fr = ?rows" "vf_log_price fr = log_price_col ?rows"
    "vf_log_ret fr = log_ret_col ?rows" "vf_ret fr = ret_col ?rows"
    "vf_rolling_vol_logret fr = rolling_vol_logret_col art (nat W) ?rows"
    by (simp_all add: fr enrich_def)
  have a: "vol_main art W flt (filter (\<lambda>r. price r \<noteq> NaN) ledger) = Inr (fr, sm)"
    using main unfolding vol_main_def vol_rows_dropna_price .
  have b: "r \<in> set ?rows \<longleftrightarrow>
            r \<in> set ledger \<and> price r \<noteq> NaN \<and> timestamp_dt r \<noteq> None \<and>
            (flt \<longrightarrow> ne_col (bid_trader_uuid r) (ask_trader_uuid r))" for r
    by (rule set_vol_rows)
  have c: "(\<forall>x. price (?rows ! i) = Num x \<and> 0 < x \<longrightarrow> log_price_col ?rows ! i = Num (ln x)) \<and>
           (price (?rows ! i) = Num 0 \<longrightarrow> log_price_col ?rows ! i = NegInf) \<and>
           (\<forall>x. price (?rows ! i) = Num x \<and> x < 0 \<longrightarrow> log_price_col ?rows ! i = NaN)"
    if "i < length ?rows" for i
    using that by (auto simp: log_price_col_def)
  have d: "session_col ?rows s (log_ret_col ?rows) ! p =
              (if p = 0 then NaN
               else fl_sub (np_log (price (session_rows ?rows s ! p)))
                           (np_log (price (session_rows ?rows s ! (p - 1))))) \<and>
           session_col ?rows s (ret_col ?rows) ! p =
              (if p = 0 then NaN
               else pct (price (session_rows ?rows s ! p)) (price (session_rows ?rows s ! (p - 1)))) \<and>
           (fl_finite (session_col ?rows s (log_ret_col ?rows) ! p) \<longrightarrow>
               0 < p \<and>
               (\<exists>x y. price (session_rows ?rows s ! p) = Num x \<and> 0 < x \<and>
                      price (session_rows ?rows s ! (p - 1)) = Num y \<and> 0 < y \<and>
                      session_col ?rows s (log_ret_col ?rows) ! p = Num (ln x - ln y))) \<and>
           (\<forall>x. price (session_rows ?rows s ! p) = Num x \<and> x < 0 \<longrightarrow>
               session_col ?rows s (log_ret_col ?rows) ! p = NaN \<and>
               (Suc p < length (session_rows ?rows s) \<longrightarrow>
                  session_col ?rows s (log_ret_col ?rows) ! Suc p = NaN)) \<and>
           (\<forall>y. 0 < p \<and> price (session_rows ?rows s ! p) = Num 0 \<and>
                 price (session_rows ?rows s ! (p - 1)) = Num y \<and> 0 < y \<longrightarrow>
               session_col ?rows s (log_ret_col ?rows) ! p = NegInf) \<and>
           (\<forall>x y. 0 < p \<and> price (session_rows ?rows s ! p) = Num x \<and>
                   price (session_rows ?rows s ! (p - 1)) = Num y \<and> y \<noteq> 0 \<longrightarrow>
               session_col ?rows s (ret_col ?rows) ! p = Num (x / y - 1)) \<and>
           (session_col ?rows s (rolling_vol_logret_col art (nat W) ?rows) ! p \<noteq> NaN \<longrightarrow>
               list_all notna (window_at (nat W) (session_col ?rows s (log_ret_col ?rows)) p))"
    if p: "p < length (session_rows ?rows s)" for s p
  proof -
    let ?sr = "session_rows ?rows s"
    let ?lr = "session_col ?rows s (log_ret_col ?rows)"
    note lrp = session_log_ret_nth[OF p]
    note rtp = session_ret_nth[OF p]
    have fin: "fl_finite (?lr ! p) \<longrightarrow>
               0 < p \<and>
               (\<exists>x y. price (?sr ! p) = Num x \<and> 0 < x \<and> price (?sr ! (p - 1)) = Num y \<and> 0 < y \<and>
                      ?lr ! p = Num (ln x - ln y))"
    proof
      assume f: "fl_finite (?lr ! p)"
      from f lrp have p0: "0 < p" by (auto simp: fl_finite_def split: if_splits)
      with f lrp have "fl_finite (fl_sub (np_log (price (?sr ! p))) (np_log (price (?sr ! (p - 1)))))"
        by simp
      from fl_sub_finite[OF this]
      have "fl_finite (np_log (price (?sr ! p)))" "fl_finite (np_log (price (?sr ! (p - 1))))"
        by simp_all
      from np_log_finite[OF this(1)] np_log_finite[OF this(2)]
      obtain x y where xy: "price (?sr ! p) = Num x" "0 < x" "price (?sr ! (p - 1)) = Num y" "0 < y"
        by auto
      with lrp p0 have "?lr ! p = Num (ln x - ln y)" by simp
      with xy p0 show "0 < p \<and>
               (\<exists>x y. price (?sr ! p) = Num x \<and> 0 < x \<and> price (?sr ! (p - 1)) = Num y \<and> 0 < y \<and>
                      ?lr ! p = Num (ln x - ln y))" by blast
    qed
    have neg: "\<forall>x. price (?sr ! p) = Num x \<and> x < 0 \<longrightarrow>
               ?lr ! p = NaN \<and> (Suc p < length ?sr \<longrightarrow> ?lr ! Suc p = NaN)"
    proof (intro allI impI)
      fix x assume n: "price (?sr ! p) = Num x \<and> x < 0"
      then have l: "np_log (price (?sr ! p)) = NaN" by simp
      have "?lr ! p = NaN" using lrp l by simp
      moreover have "?lr ! Suc p = NaN" if "Suc p < length ?sr"
        using session_log_ret_nth[OF that] l
        by (cases "np_log (price (?sr ! Suc p))") simp_all
      ultimately show "?lr ! p = NaN \<and> (Suc p < length ?sr \<longrightarrow> ?lr ! Suc p = NaN)" by simp
    qed
    have zero: "\<forall>y. 0 < p \<and> price (?sr ! p) = Num 0 \<and> price (?sr ! (p - 1)) = Num y \<and> 0 < y \<longrightarrow>
               ?lr ! p = NegInf"
      using lrp by simp
    have ret: "\<forall>x y. 0 < p \<and> price (?sr ! p) = Num x \<and> price (?sr ! (p - 1)) = Num y \<and> y \<noteq> 0 \<longrightarrow>
               session_col ?rows s (ret_col ?rows) ! p = Num (x / y - 1)"
      using rtp by (simp add: pct_def)
    have roll: "session_col ?rows s (rolling_vol_logret_col art (nat W) ?rows) ! p \<noteq> NaN \<longrightarrow>
               list_all notna (window_at (nat W) ?lr p)"
    proof
      assume d: "session_col ?rows s (rolling_vol_logret_col art (nat W) ?rows) ! p \<noteq> NaN"
      from p have p': "p < length ?lr" by (simp add: length_session_log_ret)
      from d have "rolling_std_at art (nat W) ?lr p \<noteq> NaN"
        using p' by (simp add: session_rolling rolling_nth)
      from rolling_defined[OF p' this] show "list_all notna (window_at (nat W) ?lr p)" by simp
    qed
    show ?thesis
      by (intro conjI) (fact lrp rtp fin neg zero ret roll)+
  qed
  have e: "n_trades row = length (session_rows ?rows (vs_session row)) \<and>
           realized_vol_logret row =
              (let xs = filter notna (session_col ?rows (vs_session row) (log_ret_col ?rows))
               in if length xs < 2 then NaN
                  else if list_all fl_finite xs then Num (sample_std (map num_of xs)) else NaN) \<and>
           realized_vol_ret row =
              (let xs = filter notna (session_col ?rows (vs_session row) (ret_col ?rows))
               in if length xs < 2 then NaN
                  else if list_all fl_finite xs then Num (sample_std (map num_of xs)) else NaN)"
    if "row \<in> set sm" for row
    using summary_row[of row ?rows] that
    by (simp add: sm np_std_def std_ddof1_def sample_std_def Let_def)
  have b': "\<forall>r. r \<in> set ?rows \<longleftrightarrow>
            r \<in> set ledger \<and> price r \<noteq> NaN \<and> timestamp_dt r \<noteq> None \<and>
            (flt \<longrightarrow> ne_col (bid_trader_uuid r) (ask_trader_uuid r))"
    by (intro allI) (rule b)
  show ?thesis
    unfolding sel
    apply (intro conjI)
        apply (rule a)
       apply (rule b')
      apply (intro allI impI, erule c)
     apply (intro allI impI, erule d)
    apply (intro ballI, erule e)
    done
qed

theorem C7_log_price_witness:
  "vol_main art_nan 2 False ledger_dip
     = Inr (enrich art_nan 2 (vol_rows False ledger_dip), summary (vol_rows False ledger_dip)) \<and>
   map price (vol_rows False ledger_dip) = [Num 1, Num 1, Num (- 1), Num 1, Num 1] \<and>
   log_price_col (vol_rows False ledger_dip) ! 0 = Num (ln 1) \<and>
   log_price_col (vol_rows False ledger_dip) ! 2 = NaN"
proof -
  let ?R = "vol_rows False ledger_dip"
  have eq: "vol_main art_nan 2 False ledger_dip = Inr (enrich art_nan 2 ?R, summary ?R)"
    by (simp add: vol_main_small)
  have sel: "vf_rows (enrich art_nan 2 ?R) = ?R" "vf_log_price (enrich art_nan 2 ?R) = log_price_col ?R"
    by (simp_all add: enrich_def)
  have pr: "map price ?R = [Num 1, Num 1, Num (- 1), Num 1, Num 1]"
    by (simp add: ledger_dip_def vol_rows_def eval_simps)
  have len: "length ?R = 5"
    using arg_cong[OF pr, of length] by simp
  have p0: "price (?R ! 0) = Num 1"
    using arg_cong[OF pr, of "\<lambda>xs. xs ! 0"] len by simp
  have p2: "price (?R ! 2) = Num (- 1)"
    using arg_cong[OF pr, of "\<lambda>xs. xs ! 2"] len by simp
  from C7_log_price[OF eq, THEN conjunct2, THEN conjunct2, THEN conjunct1]
  have all: "\<forall>i<5. (\<forall>x. price (?R ! i) = Num x \<and> 0 < x \<longrightarrow> log_price_col ?R ! i = Num (ln x)) \<and>
                     (price (?R ! i) = Num 0 \<longrightarrow> log_price_col ?R ! i = NegInf) \<and>
                     (\<forall>x. price (?R ! i) = Num x \<and> x < 0 \<longrightarrow> log_price_col ?R ! i = NaN)"
    by (simp only: sel len)
  from all have "\<forall>x. price (?R ! 0) = Num x \<and> 0 < x \<longrightarrow> log_price_col ?R ! 0 = Num (ln x)"
    by auto
  with p0 have a: "log_price_col ?R ! 0 = Num (ln 1)" by auto
  from all have "\<forall>x. price (?R ! 2) = Num x \<and> x < 0 \<longrightarrow> log_price_col ?R ! 2 = NaN"
    by auto
  with p2 have b: "log_price_col ?R ! 2 = NaN" by auto
  from eq pr a b show ?thesis by blast
qed

subsection \<open>Inventory and the self-trade filter\<close>

lemma num_of_neg: "num_of (fl_neg q) = - num_of q"
  by (cases q) (simp_all add: num_of_def)

lemma fl_neg_notna: "fl_neg q = NaN \<longleftrightarrow> q = NaN"
  by (cases q) simp_all

lemma fl_neg_finite: "fl_finite (fl_neg q) \<longleftrightarrow> fl_finite q"
  by (cases q) (simp_all add: fl_finite_def)

lemma inv_legs_notna: "l \<in> set (inv_legs flt rows) \<Longrightarrow> notna (snd (snd l))"
  by (auto simp: inv_legs_def Let_def bids_def asks_def notna_def fl_neg_notna)

lemma trader_legs_notna: "filter notna (trader_legs flt rows s t) = trader_legs flt rows s t"
  unfolding trader_legs_def by (rule filter_True) (auto dest: inv_legs_notna)

lemma net_inventory_eq:
  "net_inventory fsum flt rows s t =
     (if trader_legs flt rows s t = [] then None else Some (fsum (trader_legs flt rows s t)))"
proof -
  let ?legs = "inv_legs flt rows"
  have gv: "group_vals (map leg_key ?legs) (s, t) (map (\<lambda>l. snd (snd l)) ?legs) = trader_legs flt rows s t"
    by (simp add: group_vals_map trader_legs_def)
  have key: "(s, t) \<in> set (group_keys (map leg_key ?legs)) \<longleftrightarrow> trader_legs flt rows s t \<noteq> []"
    by (force simp: set_group_keys trader_legs_def filter_empty_conv image_iff)
  show ?thesis
    unfolding net_inventory_def inv_summary_def Let_def
    by (simp add: map_of_tabulate key gv trader_legs_notna)
qed

lemma sum_list_filter_inert:
  "(\<And>x. x \<in> set xs \<Longrightarrow> \<not> P x \<Longrightarrow> g x = (0::real)) \<Longrightarrow>
   sum_list (map g (filter P xs)) = sum_list (map g xs)"
  by (induction xs) auto

lemma exact_total_legs:
  "exact_total (map (\<lambda>l. snd (snd l)) (filter (\<lambda>l. leg_key l = Some k) (bids rows @ asks rows)))
     = sum_list (map (\<lambda>r. row_net r k) rows)"
  by (induction rows) (auto simp: bids_def asks_def row_net_def exact_total_def)

lemma self_trade_row_net:
  "\<not> ne_col (bid_trader_uuid r) (ask_trader_uuid r) \<Longrightarrow> row_net r k = 0"
  by (auto simp: ne_col_def row_net_def leg_key_def num_of_neg split: option.splits)

lemma exact_total_trader_legs:
  "exact_total (trader_legs flt rows s t)
     = sum_list (map (\<lambda>r. row_net r (s, t)) (filter (\<lambda>r. quantity r \<noteq> NaN) rows))"
proof -
  let ?Q = "\<lambda>r::('a, 'b) tx. quantity r \<noteq> NaN"
  let ?P = "\<lambda>r::('a, 'b) tx. ne_col (bid_trader_uuid r) (ask_trader_uuid r)"
  have "sum_list (map (\<lambda>r. row_net r (s, t)) (filter ?Q (self_trade_filter flt rows)))
      = sum_list (map (\<lambda>r. row_net r (s, t)) (filter ?Q rows))"
  proof (cases flt)
    case True
    have "filter ?Q (filter ?P rows) = filter ?P (filter ?Q rows)"
      by (induction rows) auto
    moreover have "sum_list (map (\<lambda>r. row_net r (s, t)) (filter ?P (filter ?Q rows)))
        = sum_list (map (\<lambda>r. row_net r (s, t)) (filter ?Q rows))"
      by (rule sum_list_filter_inert) (rule self_trade_row_net)
    ultimately show ?thesis using True
      by (simp only: self_trade_filter_def if_True)
  next
    case False
    then show ?thesis by (simp add: self_trade_filter_def)
  qed
  then show ?thesis
    unfolding trader_legs_def inv_legs_def Let_def exact_total_legs .
qed

lemma inv_legs_mono: "set (inv_legs True rows) \<subseteq> set (inv_legs False rows)"
  by (auto simp: inv_legs_def Let_def self_trade_filter_def bids_def asks_def)

lemma trader_legs_mono: "set (trader_legs True rows s t) \<subseteq> set (trader_legs False rows s t)"
  using inv_legs_mono[of rows] by (auto simp: trader_legs_def)

text \<open>
  C3 (as stated, refuted). The claim says that the runs with and without the self-trade
  filter give the same \<open>net_inventory\<close> for every (session, trader). For a trader whose
  only transaction is a self-trade of quantity 5 the unfiltered output has a row with
  \<open>net_inventory = 0\<close> (the sum of 5 and -5 is exact in doubles) and the filtered output
  has no row for that trader at all.
\<close>

theorem C3_self_only_counterexample:
  "net_inventory exact_sum False ledger_self 7 2 = Some (Num 0) \<and>
   net_inventory exact_sum True ledger_self 7 2 = None"
  by (simp add: ledger_self_def inventory_eval eval_simps)

text \<open>
  C3 (amended). With either setting of the filter, the \<open>net_inventory\<close> cell of a
  (session, trader) is the double-precision sum of the trader's legs, and the row exists
  if and only if the trader has a leg. Every (session, trader) with a leg in the
  filtered run has one in the unfiltered run. When the legs of the unfiltered run are
  finite, so are those of the filtered run, and the two leg lists have the same total
  in exact arithmetic: a self-trade adds \<open>+quantity\<close> and \<open>-quantity\<close> to the same trader.
  Hence, whenever the double-precision sums of both leg lists are free of rounding
  error, every row of the filtered output is a row of the unfiltered output with the
  same \<open>net_inventory\<close>, and a (session, trader) without a row in the filtered output has
  no row or a row with \<open>net_inventory = 0\<close> in the unfiltered output.
\<close>

theorem C3_net_inventory_filter_inert:
  "net_inventory fsum flt rows s t =
     (if trader_legs flt rows s t = [] then None else Some (fsum (trader_legs flt rows s t))) \<and>
   (trader_legs True rows s t \<noteq> [] \<longrightarrow> trader_legs False rows s t \<noteq> []) \<and>
   (list_all fl_finite (trader_legs False rows s t) \<longrightarrow>
      list_all fl_finite (trader_legs True rows s t) \<and>
      exact_total (trader_legs False rows s t) = exact_total (trader_legs True rows s t)) \<and>
   (list_all fl_finite (trader_legs False rows s t) \<and>
    fsum (trader_legs False rows s t) = Num (exact_total (trader_legs False rows s t)) \<and>
    fsum (trader_legs True rows s t) = Num (exact_total (trader_legs True rows s t)) \<longrightarrow>
      (\<forall>v. net_inventory fsum True rows s t = Some v \<longrightarrow> net_inventory fsum False rows s t = Some v) \<and>
      (net_inventory fsum True rows s t = None \<longrightarrow>
         net_inventory fsum False rows s t = None \<or>
         net_inventory fsum False rows s t = Some (Num 0)))"
proof -
  let ?U = "trader_legs False rows s t" and ?F = "trader_legs True rows s t"
  have sub: "set ?F \<subseteq> set ?U" by (rule trader_legs_mono)
  have keys: "?F \<noteq> [] \<longrightarrow> ?U \<noteq> []"
    using sub by (cases ?F) auto
  have fin: "list_all fl_finite ?U \<longrightarrow> list_all fl_finite ?F"
    using sub by (auto simp: list_all_iff)
  have tot: "exact_total ?U = exact_total ?F"
    by (simp add: exact_total_trader_legs)
  have empty: "?F = [] \<Longrightarrow> exact_total ?U = 0"
    using tot by (simp add: exact_total_def)
  show ?thesis
    using keys fin tot empty by (auto simp: net_inventory_eq)
qed

theorem C3_net_inventory_filter_inert_witness:
  "trader_legs False ledger_mixed 7 2 = [Num 5, Num 3, Num (- 3)] \<and>
   trader_legs True ledger_mixed 7 2 = [Num 5] \<and>
   net_inventory exact_sum True ledger_mixed 7 2 = Some (Num 5) \<and>
   net_inventory exact_sum False ledger_mixed 7 2 = Some (Num 5)"
proof -
  have u: "trader_legs False ledger_mixed 7 2 = [Num 5, Num 3, Num (- 3)]"
    by (simp add: ledger_mixed_def inventory_eval eval_simps)
  have f: "trader_legs True ledger_mixed 7 2 = [Num 5]"
    by (simp add: ledger_mixed_def inventory_eval eval_simps)
  have h: "list_all fl_finite (trader_legs False ledger_mixed 7 2) \<and>
      exact_sum (trader_legs False ledger_mixed 7 2) = Num (exact_total (trader_legs False ledger_mixed 7 2)) \<and>
      exact_sum (trader_legs True ledger_mixed 7 2) = Num (exact_total (trader_legs True ledger_mixed 7 2))"
    by (simp add: u exact_sum_def fl_finite_def)
  note c3 = C3_net_inventory_filter_inert[of exact_sum _ ledger_mixed 7 2]
  from c3[of True] f have t: "net_inventory exact_sum True ledger_mixed 7 2 = Some (Num 5)"
    by (simp add: exact_sum_def exact_total_def num_of_def)
  from c3[of False] h t have "net_inventory exact_sum False ledger_mixed 7 2 = Some (Num 5)"
    by blast
  with u f t show ?thesis by blast
qed

subsection \<open>Unparsable timestamps\<close>

lemma inv_legs_timestamp:
  "inv_legs flt (map (\<lambda>r. r\<lparr>timestamp_dt := g r\<rparr>) ledger) = inv_legs flt ledger"
  by (cases flt) (simp_all add: inv_legs_def Let_def self_trade_filter_def bids_def asks_def
      filter_map comp_def)

lemma inv_legs_dropna_quantity:
  "inv_legs flt (filter (\<lambda>r. quantity r \<noteq> NaN) ledger) = inv_legs flt ledger"
  unfolding inv_legs_def by (subst filter_self_trade_filter) simp_all

lemma inv_legs_member:
  assumes "r \<in> set ledger" and "quantity r \<noteq> NaN"
    and "flt \<longrightarrow> ne_col (bid_trader_uuid r) (ask_trader_uuid r)"
  shows "(trading_session_uuid r, bid_trader_uuid r, quantity r) \<in> set (inv_legs flt ledger) \<and>
         (trading_session_uuid r, ask_trader_uuid r, fl_neg (quantity r)) \<in> set (inv_legs flt ledger)"
proof -
  have "r \<in> set (filter (\<lambda>r. quantity r \<noteq> NaN) (self_trade_filter flt ledger))"
    using assms by (auto simp: self_trade_filter_def)
  then show ?thesis
    unfolding inv_legs_def Let_def bids_def asks_def by (auto simp: image_iff intro!: bexI[of _ r])
qed

lemma trader_legs_member:
  assumes "r \<in> set ledger" and "quantity r \<noteq> NaN"
    and "flt \<longrightarrow> ne_col (bid_trader_uuid r) (ask_trader_uuid r)"
    and "trading_session_uuid r = Some s"
  shows "bid_trader_uuid r = Some b \<Longrightarrow> quantity r \<in> set (trader_legs flt ledger s b)"
    and "ask_trader_uuid r = Some a \<Longrightarrow> fl_neg (quantity r) \<in> set (trader_legs flt ledger s a)"
proof -
  note m = inv_legs_member[OF assms(1-3)]
  show "bid_trader_uuid r = Some b \<Longrightarrow> quantity r \<in> set (trader_legs flt ledger s b)"
    using m[THEN conjunct1] assms(4)
    by (force simp: trader_legs_def leg_key_def image_iff)
  show "ask_trader_uuid r = Some a \<Longrightarrow> fl_neg (quantity r) \<in> set (trader_legs flt ledger s a)"
    using m[THEN conjunct2] assms(4)
    by (force simp: trader_legs_def leg_key_def image_iff)
qed

text \<open>
  C9 (as stated, refuted). A transaction with an unparsable timestamp whose quantity is
  unparsable too contributes no leg to inventory reconstruction: the inventory frame and
  the inventory output of a ledger that holds only such a transaction are empty. The
  same holds for a self-trade without a timestamp when the self-trade filter is enabled.
  A transaction with neither a timestamp nor a session id has its two legs in the
  inventory frame, but they reach no row of the inventory output.
\<close>

theorem C9_no_quantity_counterexample:
  "map timestamp_dt ledger_blank = [None] \<and>
   inv_legs False ledger_blank = [] \<and>
   inv_summary exact_sum False ledger_blank = [] \<and>
   map timestamp_dt ledger_untimed_self = [None] \<and>
   inv_legs True ledger_untimed_self = [] \<and>
   inv_summary exact_sum True ledger_untimed_self = [] \<and>
   map timestamp_dt ledger_anon = [None] \<and>
   inv_legs False ledger_anon = [(None, Some 3, Num 2), (None, Some 4, Num (- 2))] \<and>
   inv_summary exact_sum False ledger_anon = []"
proof -
  have a: "map timestamp_dt ledger_blank = [None] \<and> inv_legs False ledger_blank = [] \<and>
           inv_summary exact_sum False ledger_blank = []"
    by (simp add: ledger_blank_def inventory_eval eval_simps inv_summary_def)
  have b: "map timestamp_dt ledger_untimed_self = [None] \<and> inv_legs True ledger_untimed_self = [] \<and>
           inv_summary exact_sum True ledger_untimed_self = []"
    by (simp add: ledger_untimed_self_def inventory_eval eval_simps inv_summary_def)
  have c: "map timestamp_dt ledger_anon = [None] \<and>
           inv_legs False ledger_anon = [(None, Some 3, Num 2), (None, Some 4, Num (- 2))] \<and>
           inv_summary exact_sum False ledger_anon = []"
    by (simp add: ledger_anon_def inventory_eval eval_simps inv_summary_def)
  from a b c show ?thesis by simp
qed

text \<open>
  C9 (amended). A transaction whose timestamp is unparsable is excluded from the
  volatility and the feedback computations: both give the results of the ledger without
  such transactions. Inventory reconstruction does not read timestamps: its output is
  the same whatever the timestamps are. It drops the transactions whose quantity is
  unparsable (the output is that of the ledger without them). A transaction without a
  timestamp whose quantity is parsable and which the self-trade filter, when enabled,
  does not remove contributes both legs: when its session and buyer are present,
  \<open>+quantity\<close> is one of the legs of (session, buyer), whose row exists and holds the sum
  of these legs; and likewise \<open>-quantity\<close> for (session, seller).
\<close>

theorem C9_timestamp_asymmetry:
  "vol_main art W flt (filter (\<lambda>r. timestamp_dt r \<noteq> None) ledger) = vol_main art W flt ledger \<and>
   fb_main flt (filter (\<lambda>r. timestamp_dt r \<noteq> None) ledger) = fb_main flt ledger \<and>
   inv_summary fsum flt (map (\<lambda>r. r\<lparr>timestamp_dt := g r\<rparr>) ledger) = inv_summary fsum flt ledger \<and>
   inv_summary fsum flt (filter (\<lambda>r. quantity r \<noteq> NaN) ledger) = inv_summary fsum flt ledger \<and>
   (\<forall>r\<in>set ledger.
      timestamp_dt r = None \<and> quantity r \<noteq> NaN \<and>
      (flt \<longrightarrow> ne_col (bid_trader_uuid r) (ask_trader_uuid r)) \<longrightarrow>
        (\<forall>s b. trading_session_uuid r = Some s \<and> bid_trader_uuid r = Some b \<longrightarrow>
           quantity r \<in> set (trader_legs flt ledger s b) \<and>
           net_inventory fsum flt ledger s b = Some (fsum (trader_legs flt ledger s b))) \<and>
        (\<forall>s a. trading_session_uuid r = Some s \<and> ask_trader_uuid r = Some a \<longrightarrow>
           fl_neg (quantity r) \<in> set (trader_legs flt ledger s a) \<and>
           net_inventory fsum flt ledger s a = Some (fsum (trader_legs flt ledger s a))))"
proof -
  have a: "vol_main art W flt (filter (\<lambda>r. timestamp_dt r \<noteq> None) ledger) = vol_main art W flt ledger"
    unfolding vol_main_def vol_rows_dropna_timestamp ..
  have b: "fb_main flt (filter (\<lambda>r. timestamp_dt r \<noteq> None) ledger) = fb_main flt ledger"
    unfolding fb_main_def events_def fb_rows_dropna_timestamp ..
  have c: "inv_summary fsum flt (map (\<lambda>r. r\<lparr>timestamp_dt := g r\<rparr>) ledger) = inv_summary fsum flt ledger"
    unfolding inv_summary_def inv_legs_timestamp ..
  have d: "inv_summary fsum flt (filter (\<lambda>r. quantity r \<noteq> NaN) ledger) = inv_summary fsum flt ledger"
    unfolding inv_summary_def inv_legs_dropna_quantity ..
  have e: "quantity r \<in> set (trader_legs flt ledger s b) \<and>
           net_inventory fsum flt ledger s b = Some (fsum (trader_legs flt ledger s b))"
    if "r \<in> set ledger" "quantity r \<noteq> NaN" "flt \<longrightarrow> ne_col (bid_trader_uuid r) (ask_trader_uuid r)"
      "trading_session_uuid r = Some s" "bid_trader_uuid r = Some b" for r s b
  proof -
    from trader_legs_member(1)[OF that] have m: "quantity r \<in> set (trader_legs flt ledger s b)" .
    then have "trader_legs flt ledger s b \<noteq> []" by auto
    with m show ?thesis by (simp add: net_inventory_eq)
  qed
  have f: "fl_neg (quantity r) \<in> set (trader_legs flt ledger s a) \<and>
           net_inventory fsum flt ledger s a = Some (fsum (trader_legs flt ledger s a))"
    if "r \<in> set ledger" "quantity r \<noteq> NaN" "flt \<longrightarrow> ne_col (bid_trader_uuid r) (ask_trader_uuid r)"
      "trading_session_uuid r = Some s" "ask_trader_uuid r = Some a" for r s a
  proof -
    from trader_legs_member(2)[OF that] have m: "fl_neg (quantity r) \<in> set (trader_legs flt ledger s a)" .
    then have "trader_legs flt ledger s a \<noteq> []" by auto
    with m show ?thesis by (simp add: net_inventory_eq)
  qed
  from a b c d e f show ?thesis by blast
qed

theorem C9_timestamp_asymmetry_witness:
  "vol_main art_nan 10 False ledger_untimed = vol_main art_nan 10 False ledger_round \<and>
   fb_main False ledger_untimed = fb_main False ledger_round \<and>
   trader_legs False ledger_untimed 7 3 = [Num 2] \<and>
   net_inventory exact_sum False ledger_untimed 7 3 = Some (Num 2) \<and>
   trader_legs False ledger_untimed 7 4 = [Num (- 2)] \<and>
   net_inventory exact_sum False ledger_untimed 7 4 = Some (Num (- 2))"
proof -
  let ?r = "trade 7 9 None (Num 50) (Num 2) 3 4"
  have f: "filter (\<lambda>r. timestamp_dt r \<noteq> None) ledger_untimed = ledger_round"
    by (simp add: ledger_untimed_def ledger_round_def trade_def)
  have m: "?r \<in> set ledger_untimed"
    by (simp add: ledger_untimed_def)
  have h: "timestamp_dt ?r = None \<and> quantity ?r \<noteq> NaN \<and>
           (False \<longrightarrow> ne_col (bid_trader_uuid ?r) (ask_trader_uuid ?r))"
    by (simp add: trade_def)
  have ids: "trading_session_uuid ?r = Some 7 \<and> bid_trader_uuid ?r = Some 3"
    "trading_session_uuid ?r = Some 7 \<and> ask_trader_uuid ?r = Some 4"
    by (simp_all add: trade_def)
  have b: "trader_legs False ledger_untimed 7 3 = [Num 2]"
    by (simp add: ledger_untimed_def ledger_round_def inventory_eval eval_simps)
  have s: "trader_legs False ledger_untimed 7 4 = [Num (- 2)]"
    by (simp add: ledger_untimed_def ledger_round_def inventory_eval eval_simps)
  note c9 = C9_timestamp_asymmetry[of art_nan 10 False ledger_untimed exact_sum "\<lambda>r. None"]
  from c9 f have v: "vol_main art_nan 10 False ledger_untimed = vol_main art_nan 10 False ledger_round"
    and w: "fb_main False ledger_untimed = fb_main False ledger_round"
    by simp_all
  from c9 m h ids
  have "net_inventory exact_sum False ledger_untimed 7 3
          = Some (exact_sum (trader_legs False ledger_untimed 7 3)) \<and>
        net_inventory exact_sum False ledger_untimed 7 4
          = Some (exact_sum (trader_legs False ledger_untimed 7 4))"
    by blast
  then have "net_inventory exact_sum False ledger_untimed 7 3 = Some (Num 2) \<and>
             net_inventory exact_sum False ledger_untimed 7 4 = Some (Num (- 2))"
    by (simp add: b s exact_sum_def exact_total_def num_of_def)
  with v w b s show ?thesis by blast
qed

subsection \<open>Price change of the feedback script\<close>

lemma sort_values_filter: "sort_values (filter P rows) = filter P (sort_values rows)"
  by (simp add: sort_values_def filter_sort)

lemma fb_rows_filter:
  "fb_rows flt ledger = filter (\<lambda>r. quantity r \<noteq> NaN) (vol_rows flt ledger)"
proof -
  have "filter (\<lambda>r. price r \<noteq> NaN \<and> quantity r \<noteq> NaN \<and> timestamp_dt r \<noteq> None) xs
      = filter (\<lambda>r. quantity r \<noteq> NaN) (filter (\<lambda>r. price r \<noteq> NaN \<and> timestamp_dt r \<noteq> None) xs)"
    for xs :: "('a, 'b) tx list"
    by (induction xs) auto
  then show ?thesis
    unfolding fb_rows_def vol_rows_def by (simp only: sort_values_filter)
qed

lemma session_rows_filter: "session_rows (filter P rows) s = filter P (session_rows rows s)"
  by (induction rows) (auto simp: session_rows_def)

lemma filter_nth_pos:
  assumes "p < length xs" and "P (xs ! p)"
  shows "length (filter P (take p xs)) < length (filter P xs) \<and>
         filter P xs ! length (filter P (take p xs)) = xs ! p"
proof -
  have "xs = take p xs @ xs ! p # drop (Suc p) xs"
    using assms(1) by (simp add: id_take_nth_drop)
  then have "filter P xs = filter P (take p xs) @ xs ! p # filter P (drop (Suc p) xs)"
    using assms(2) by (metis filter.simps(2) filter_append)
  then show ?thesis by (simp add: nth_append)
qed

lemma filter_take_pred:
  assumes "0 < p" and "p \<le> length xs" and "P (xs ! (p - 1))"
  shows "length (filter P (take p xs)) = Suc (length (filter P (take (p - 1) xs)))"
proof -
  from assms(1) obtain m where m: "p = Suc m" by (cases p) auto
  with assms(2) have "take p xs = take m xs @ [xs ! m]"
    by (simp add: take_Suc_conv_app_nth)
  with assms(3) m show ?thesis by simp
qed

lemma session_price_change_nth:
  "q < length (session_rows rows s) \<Longrightarrow>
   session_col rows s (price_change_col rows) ! q = raw_price_diff (session_rows rows s) q"
  by (simp add: session_price_change series_diff_nth raw_price_diff_def)

text \<open>
  C1 (as stated, refuted). The feedback script also drops the rows whose quantity is
  unparsable before it takes differences. In a session with prices 100, 105, 103 whose
  second quantity is unparsable, transaction 3 is in both outputs; its price difference
  in the volatility script's series is \<open>-2\<close>, and the feedback script uses \<open>+3\<close>.
\<close>

theorem C1_price_change_counterexample:
  "map transaction_id (vol_rows False ledger_gap) = [1, 2, 3] \<and>
   map (raw_price_diff (session_rows (vol_rows False ledger_gap) 7)) [0, 1, 2]
     = [NaN, Num 5, Num (- 2)] \<and>
   map transaction_id (fb_rows False ledger_gap) = [1, 3] \<and>
   price_change_col (fb_rows False ledger_gap) = [NaN, Num 3] \<and>
   map (\<lambda>e. (ev_transaction_id e, ev_price_change e)) (events False ledger_gap)
     = [(3, Num 3), (3, Num 3)]"
proof -
  have a: "map transaction_id (vol_rows False ledger_gap) = [1, 2, 3]"
    by (simp add: ledger_gap_def vol_rows_def eval_simps)
  have b: "map (raw_price_diff (session_rows (vol_rows False ledger_gap) 7)) [0, 1, 2]
     = [NaN, Num 5, Num (- 2)]"
    by (simp add: ledger_gap_def vol_rows_def session_rows_def raw_price_diff_def eval_simps)
  have c: "map transaction_id (fb_rows False ledger_gap) = [1, 3]"
    by (simp add: ledger_gap_def feedback_eval eval_simps)
  have d: "price_change_col (fb_rows False ledger_gap) = [NaN, Num 3]"
    by (simp add: ledger_gap_def feedback_eval eval_simps)
  have e: "map (\<lambda>e. (ev_transaction_id e, ev_price_change e)) (events False ledger_gap)
     = [(3, Num 3), (3, Num 3)]"
    by (simp add: ledger_gap_def feedback_eval eval_simps)
  from a b c d e show ?thesis by blast
qed

text \<open>
  C1 (amended). With the same self-trade filter setting in both scripts, the rows of a
  session in the feedback script are the rows of that session in the volatility script
  that have a parsable quantity, in the same order, and the \<open>price_change\<close> of the
  feedback script is the price difference to the previous of these rows (undefined for
  the first). The simple return of the volatility script at a position is computed from
  the prices of the row and of its predecessor in the volatility script's series. Hence
  for every transaction with a parsable quantity that is first in its session or whose
  predecessor in the volatility script's series also has a parsable quantity, the
  \<open>price_change\<close> used by the feedback script equals the raw difference
  \<open>price[i] - price[i-1]\<close> of the volatility script's series for the same transaction.
\<close>

theorem C1_price_change_shared:
  "session_rows (fb_rows flt ledger) s
     = filter (\<lambda>r. quantity r \<noteq> NaN) (session_rows (vol_rows flt ledger) s) \<and>
   (\<forall>q<length (session_rows (fb_rows flt ledger) s).
      session_col (fb_rows flt ledger) s (price_change_col (fb_rows flt ledger)) ! q
        = raw_price_diff (session_rows (fb_rows flt ledger) s) q) \<and>
   (\<forall>p<length (session_rows (vol_rows flt ledger) s).
      session_col (vol_rows flt ledger) s (ret_col (vol_rows flt ledger)) ! p
        = (if p = 0 then NaN
           else pct (price (session_rows (vol_rows flt ledger) s ! p))
                    (price (session_rows (vol_rows flt ledger) s ! (p - 1))))) \<and>
   (\<forall>p<length (session_rows (vol_rows flt ledger) s).
      quantity (session_rows (vol_rows flt ledger) s ! p) \<noteq> NaN \<and>
      (p = 0 \<or> quantity (session_rows (vol_rows flt ledger) s ! (p - 1)) \<noteq> NaN) \<longrightarrow>
        length (filter (\<lambda>r. quantity r \<noteq> NaN) (take p (session_rows (vol_rows flt ledger) s)))
          < length (session_rows (fb_rows flt ledger) s) \<and>
        session_rows (fb_rows flt ledger) s
          ! length (filter (\<lambda>r. quantity r \<noteq> NaN) (take p (session_rows (vol_rows flt ledger) s)))
          = session_rows (vol_rows flt ledger) s ! p \<and>
        session_col (fb_rows flt ledger) s (price_change_col (fb_rows flt ledger))
          ! length (filter (\<lambda>r. quantity r \<noteq> NaN) (take p (session_rows (vol_rows flt ledger) s)))
          = raw_price_diff (session_rows (vol_rows flt ledger) s) p)"
proof -
  let ?hasq = "\<lambda>r::('a, 'b) tx. quantity r \<noteq> NaN"
  let ?V = "session_rows (vol_rows flt ledger) s"
  let ?F = "session_rows (fb_rows flt ledger) s"
  let ?pc = "session_col (fb_rows flt ledger) s (price_change_col (fb_rows flt ledger))"
  have F: "?F = filter ?hasq ?V"
    by (simp add: fb_rows_filter session_rows_filter)
  have a: "\<forall>q<length ?F. ?pc ! q = raw_price_diff ?F q"
    by (simp add: session_price_change_nth)
  have b: "\<forall>p<length ?V. session_col (vol_rows flt ledger) s (ret_col (vol_rows flt ledger)) ! p
        = (if p = 0 then NaN else pct (price (?V ! p)) (price (?V ! (p - 1))))"
    by (simp add: session_ret_nth)
  have c: "length (filter ?hasq (take p ?V)) < length ?F \<and>
           ?F ! length (filter ?hasq (take p ?V)) = ?V ! p \<and>
           ?pc ! length (filter ?hasq (take p ?V)) = raw_price_diff ?V p"
    if p: "p < length ?V" and h: "?hasq (?V ! p) \<and> (p = 0 \<or> ?hasq (?V ! (p - 1)))" for p
  proof -
    let ?q = "length (filter ?hasq (take p ?V))"
    from filter_nth_pos[OF p, of ?hasq] h
    have q: "?q < length ?F" and Fq: "?F ! ?q = ?V ! p" by (simp_all add: F)
    have "raw_price_diff ?F ?q = raw_price_diff ?V p"
    proof (cases "p = 0")
      case True
      then show ?thesis by (simp add: raw_price_diff_def)
    next
      case False
      with h have hp: "?hasq (?V ! (p - 1))" and p0: "0 < p" by simp_all
      from p have ple: "p \<le> length ?V" and p1: "p - 1 < length ?V" by simp_all
      from filter_take_pred[OF p0 ple, of ?hasq] hp
      have qs: "?q = Suc (length (filter ?hasq (take (p - 1) ?V)))" by simp
      from filter_nth_pos[OF p1, of ?hasq] hp
      have "?F ! length (filter ?hasq (take (p - 1) ?V)) = ?V ! (p - 1)" by (simp add: F)
      with qs have "?F ! (?q - 1) = ?V ! (p - 1)" by simp
      with Fq qs p0 show ?thesis by (simp add: raw_price_diff_def)
    qed
    with a q Fq show ?thesis by simp
  qed
  have c': "\<forall>p<length ?V. ?hasq (?V ! p) \<and> (p = 0 \<or> ?hasq (?V ! (p - 1))) \<longrightarrow>
           length (filter ?hasq (take p ?V)) < length ?F \<and>
           ?F ! length (filter ?hasq (take p ?V)) = ?V ! p \<and>
           ?pc ! length (filter ?hasq (take p ?V)) = raw_price_diff ?V p"
    by (intro allI impI) (rule c)
  show ?thesis
    by (intro conjI) (fact F a b c')+
qed

theorem C1_price_change_shared_witness:
  "map transaction_id (session_rows (vol_rows False ledger_round) 7) = [1, 2, 3] \<and>
   map quantity (session_rows (vol_rows False ledger_round) 7) = [Num 5, Num 3, Num 4] \<and>
   session_col (fb_rows False ledger_round) 7 (price_change_col (fb_rows False ledger_round)) ! 2
     = Num (- 1)"
proof -
  let ?V = "session_rows (vol_rows False ledger_round) 7"
  have ids: "map transaction_id ?V = [1, 2, 3]"
    by (simp add: ledger_round_def vol_rows_def session_rows_def eval_simps)
  have qs: "map quantity ?V = [Num 5, Num 3, Num 4]"
    by (simp add: ledger_round_def vol_rows_def session_rows_def eval_simps)
  have pr: "map price ?V = [Num 100, Num 102, Num 101]"
    by (simp add: ledger_round_def vol_rows_def session_rows_def eval_simps)
  have len: "length ?V = 3"
    using arg_cong[OF pr, of length] by simp
  have p2: "price (?V ! 2) = Num 101" and p1: "price (?V ! 1) = Num 102"
    using arg_cong[OF pr, of "\<lambda>xs. xs ! 2"] arg_cong[OF pr, of "\<lambda>xs. xs ! 1"] len by simp_all
  have q2: "quantity (?V ! 2) = Num 4" and q1: "quantity (?V ! 1) = Num 3"
    using arg_cong[OF qs, of "\<lambda>xs. xs ! 2"] arg_cong[OF qs, of "\<lambda>xs. xs ! 1"] len by simp_all
  have cntq: "length (filter (\<lambda>r. quantity r \<noteq> NaN) (take 2 ?V)) = 2"
  proof -
    have "map quantity (take 2 ?V) = [Num 5, Num 3]"
      by (simp add: qs take_map[symmetric] numeral_2_eq_2)
    then have "filter (\<lambda>v. v \<noteq> NaN) (map quantity (take 2 ?V)) = [Num 5, Num 3]" by simp
    then have "length (map quantity (filter (\<lambda>r. quantity r \<noteq> NaN) (take 2 ?V))) = 2"
      by (simp add: filter_map comp_def)
    then show ?thesis by simp
  qed
  note c1 = C1_price_change_shared[of False ledger_round 7, THEN conjunct2, THEN conjunct2, THEN conjunct2,
      rule_format, of 2]
  from c1 len q2 q1
  have "session_col (fb_rows False ledger_round) 7 (price_change_col (fb_rows False ledger_round)) ! 2
          = raw_price_diff ?V 2"
    by (simp add: cntq)
  also have "\<dots> = Num (- 1)"
    using p1 p2 by (simp add: raw_price_diff_def)
  finally show ?thesis using ids qs by blast
qed

subsection \<open>Feedback classification and rates\<close>

lemma buyer_sel:
  "ev_session (buyer rp) = trading_session_uuid (fst rp)" "ev_price_change (buyer rp) = snd rp"
  "ev_signed_qty (buyer rp) = quantity (fst rp)" "ev_quantity (buyer rp) = quantity (fst rp)"
  by (cases rp; simp add: buyer_def)+

lemma seller_sel:
  "ev_session (seller rp) = trading_session_uuid (fst rp)" "ev_price_change (seller rp) = snd rp"
  "ev_signed_qty (seller rp) = fl_neg (quantity (fst rp))"
  "ev_quantity (seller rp) = quantity (fst rp)"
  by (cases rp; simp add: seller_def)+













lemma exactly_one_leg:
  assumes "gt0 (quantity r)" and "pc \<noteq> NaN" and "pc \<noteq> Num 0"
  shows "feedback_trade (buyer (r, pc)) + feedback_trade (seller (r, pc)) = 1"
  using assms
  by (cases pc; cases "quantity r") (auto simp: feedback_trade_def buyer_sel seller_sel)

lemma sum_list_const_one:
  "(\<And>x. x \<in> set xs \<Longrightarrow> f x = (1::int)) \<Longrightarrow> sum_list (map f xs) = int (length xs)"
  by (induction xs) auto

lemma session_events_split:
  "filter (\<lambda>e. ev_session e = Some s) (events_of rows)
     = map buyer (filter (\<lambda>rp. trading_session_uuid (fst rp) = Some s \<and> snd rp \<noteq> NaN)
                         (zip rows (price_change_col rows)))
     @ map seller (filter (\<lambda>rp. trading_session_uuid (fst rp) = Some s \<and> snd rp \<noteq> NaN)
                          (zip rows (price_change_col rows)))"
  by (simp add: events_of_def Let_def filter_map comp_def buyer_sel seller_sel conj_commute)

text \<open>
  C10. For a transaction with a non-zero price change and a strictly positive quantity,
  exactly one of its buyer and seller events is a feedback trade (the two flags sum to
  1). A session with at least one event, all of whose events come from such
  transactions, has the session-level \<open>feedback_rate\<close> 1/2.
\<close>

theorem C10_one_leg_is_feedback:
  assumes main: "fb_main flt ledger = (evs, col, ts, ss)"
    and good: "\<forall>e\<in>set evs. ev_session e = Some s \<longrightarrow> ev_price_change e \<noteq> Num 0 \<and> gt0 (ev_quantity e)"
    and some: "\<exists>e\<in>set evs. ev_session e = Some s"
  shows "(\<forall>r d q. quantity r = Num q \<and> 0 < q \<and> d \<noteq> 0 \<longrightarrow>
            feedback_trade (buyer (r, Num d)) + feedback_trade (seller (r, Num d)) = 1) \<and>
         (\<forall>r pc. gt0 (quantity r) \<and> pc \<noteq> NaN \<and> pc \<noteq> Num 0 \<longrightarrow>
            feedback_trade (buyer (r, pc)) + feedback_trade (seller (r, pc)) = 1) \<and>
         map_of ss s = Some (length (filter (\<lambda>e. ev_session e = Some s) evs), Num (1 / 2))"
proof -
  let ?rows = "fb_rows flt ledger"
  let ?P = "filter (\<lambda>rp. trading_session_uuid (fst rp) = Some s \<and> snd rp \<noteq> NaN)
                   (zip ?rows (price_change_col ?rows))"
  let ?g = "filter (\<lambda>e. ev_session e = Some s) evs"
  from main have evs: "evs = events_of ?rows" and ss: "ss = session_summary evs"
    by (auto simp: fb_main_def Let_def events_def)
  have split: "?g = map buyer ?P @ map seller ?P"
    unfolding evs by (rule session_events_split)
  have one: "feedback_trade (buyer rp) + feedback_trade (seller rp) = 1" if rp: "rp \<in> set ?P" for rp
  proof -
    obtain r pc where [simp]: "rp = (r, pc)" by (cases rp)
    from rp have "buyer rp \<in> set ?g" unfolding split by simp
    then have "buyer rp \<in> set evs" and "ev_session (buyer rp) = Some s" by auto
    with good have "ev_price_change (buyer rp) \<noteq> Num 0" and "gt0 (ev_quantity (buyer rp))" by auto
    moreover from rp have "pc \<noteq> NaN" by auto
    ultimately have "gt0 (quantity r)" "pc \<noteq> NaN" "pc \<noteq> Num 0"
      by (simp_all add: buyer_sel)
    then show ?thesis using exactly_one_leg[of r pc] by simp
  qed
  have "sum_list (map feedback_trade ?g)
          = sum_list (map (\<lambda>rp. feedback_trade (buyer rp) + feedback_trade (seller rp)) ?P)"
    unfolding split by (simp add: sum_list_addf comp_def)
  also have "\<dots> = int (length ?P)"
    using one by (rule sum_list_const_one)
  finally have total: "sum_list (map feedback_trade ?g) = int (length ?P)" .
  have len: "length ?g = 2 * length ?P"
    unfolding split by simp
  from some have ne: "?g \<noteq> []" by (auto simp: filter_empty_conv)
  with len have pos: "0 < length ?P" by auto
  have key: "s \<in> set (group_keys (map ev_session evs))"
    using some by (force simp: set_group_keys image_iff)
  have "map_of ss s = Some (length ?g, np_mean (map feedback_trade ?g))"
    unfolding ss session_summary_def Let_def
    using key by (simp add: map_of_tabulate group_vals_map)
  moreover have "np_mean (map feedback_trade ?g) = Num (1 / 2)"
    using pos ne by (simp add: np_mean_def total len)
  moreover have "\<forall>r d q. quantity r = Num q \<and> 0 < q \<and> d \<noteq> 0 \<longrightarrow>
            feedback_trade (buyer (r, Num d)) + feedback_trade (seller (r, Num d)) = 1"
    by (intro allI impI, rule exactly_one_leg) simp_all
  moreover have "\<forall>r pc. gt0 (quantity r) \<and> pc \<noteq> NaN \<and> pc \<noteq> Num 0 \<longrightarrow>
            feedback_trade (buyer (r, pc)) + feedback_trade (seller (r, pc)) = 1"
    by (intro allI impI, rule exactly_one_leg) simp_all
  ultimately show ?thesis by simp
qed

theorem C10_one_leg_is_feedback_witness:
  "fb_main False ledger_round
     = (events False ledger_round, map feedback_trade (events False ledger_round),
        trader_summary (events False ledger_round), session_summary (events False ledger_round)) \<and>
   map (\<lambda>e. (ev_price_change e, ev_quantity e)) (events False ledger_round)
     = [(Num 2, Num 3), (Num (- 1), Num 4), (Num 2, Num 3), (Num (- 1), Num 4)] \<and>
   map_of (session_summary (events False ledger_round)) 7
     = Some (length (filter (\<lambda>e. ev_session e = Some 7) (events False ledger_round)), Num (1 / 2))"
proof -
  let ?evs = "events False ledger_round"
  have eq: "fb_main False ledger_round
     = (?evs, map feedback_trade ?evs, trader_summary ?evs, session_summary ?evs)"
    by (simp add: fb_main_def Let_def)
  have vals: "map (\<lambda>e. (ev_session e, ev_price_change e, ev_quantity e)) ?evs
     = [(Some 7, Num 2, Num 3), (Some 7, Num (- 1), Num 4),
        (Some 7, Num 2, Num 3), (Some 7, Num (- 1), Num 4)]"
    by (simp add: ledger_round_def feedback_eval eval_simps)
  have "\<forall>t\<in>set (map (\<lambda>e. (ev_session e, ev_price_change e, ev_quantity e)) ?evs).
          fst t = Some 7 \<and> fst (snd t) \<noteq> Num 0 \<and> gt0 (snd (snd t))"
    unfolding vals by simp
  then have good: "\<forall>e\<in>set ?evs. ev_session e = Some 7 \<longrightarrow> ev_price_change e \<noteq> Num 0 \<and> gt0 (ev_quantity e)"
    and all7: "\<forall>e\<in>set ?evs. ev_session e = Some 7"
    by auto
  from vals have "?evs \<noteq> []" by auto
  with all7 have some: "\<exists>e\<in>set ?evs. ev_session e = Some 7"
    by (cases ?evs) auto
  have pq: "map (\<lambda>e. (ev_price_change e, ev_quantity e)) ?evs
     = [(Num 2, Num 3), (Num (- 1), Num 4), (Num 2, Num 3), (Num (- 1), Num 4)]"
    using arg_cong[OF vals, of "map snd"] by (simp add: comp_def)
  from C10_one_leg_is_feedback[OF eq good some, THEN conjunct2, THEN conjunct2] eq pq
  show ?thesis by blast
qed

end
